theory Spec2Isabelle
  imports Main "HOL-Library.Monad_Syntax"
begin

section \<open>Intergalactic tic-tac-toe: the rules engine of \<open>game_logic.py\<close>\<close>

text \<open>
  The engine is the Python class \<open>GameLogic\<close>. Its fields are nested Python lists of
  strings (\<open>""\<close>, \<open>"X"\<close>, \<open>"O"\<close>), two nullable selectors and two strings. A method that
  mutates the object is modelled by a function returning the new object; a Python
  exception (here only \<open>IndexError\<close> can arise) is the value \<open>None\<close> of the option type.
\<close>

subsection \<open>Python lists\<close>

definition py_get :: "'a list \<Rightarrow> int \<Rightarrow> 'a option" where
  \<comment> \<open>\<open>xs[i]\<close>: a negative index counts from the end, out of range raises.\<close>
  "py_get xs i =
     (if 0 \<le> i \<and> i < int (length xs) then Some (xs ! nat i)
      else if i < 0 \<and> - int (length xs) \<le> i then Some (xs ! nat (int (length xs) + i))
      else None)"

definition py_set :: "'a list \<Rightarrow> int \<Rightarrow> 'a \<Rightarrow> 'a list option" where
  \<comment> \<open>\<open>xs[i] = v\<close>, returning the updated list.\<close>
  "py_set xs i v =
     (if 0 \<le> i \<and> i < int (length xs) then Some (xs[nat i := v])
      else if i < 0 \<and> - int (length xs) \<le> i then Some (xs[nat (int (length xs) + i) := v])
      else None)"

definition get2 :: "'a list list \<Rightarrow> int \<Rightarrow> int \<Rightarrow> 'a option" where
  \<comment> \<open>\<open>g[i][j]\<close>\<close>
  "get2 g i j = do { r \<leftarrow> py_get g i; py_get r j }"

definition set2 :: "'a list list \<Rightarrow> int \<Rightarrow> int \<Rightarrow> 'a \<Rightarrow> 'a list list option" where
  \<comment> \<open>\<open>g[i][j] = v\<close>\<close>
  "set2 g i j v = do { r \<leftarrow> py_get g i; r' \<leftarrow> py_set r j v; py_set g i r' }"

definition set4 ::
  "'a list list list list \<Rightarrow> int \<Rightarrow> int \<Rightarrow> int \<Rightarrow> int \<Rightarrow> 'a \<Rightarrow> 'a list list list list option" where
  \<comment> \<open>\<open>g[i][j][k][l] = v\<close>\<close>
  "set4 g i j k l v =
     do { b \<leftarrow> get2 g i j; b' \<leftarrow> set2 b k l v; r \<leftarrow> py_get g i; r' \<leftarrow> py_set r j b'; py_set g i r' }"

fun all_m :: "('a \<Rightarrow> bool option) \<Rightarrow> 'a list \<Rightarrow> bool option" where
  \<comment> \<open>\<open>all(f(x) for x in xs)\<close>: stops at the first false element.\<close>
  "all_m f [] = Some True"
| "all_m f (x # xs) = do { b \<leftarrow> f x; if b then all_m f xs else Some False }"

fun any_m :: "('a \<Rightarrow> bool option) \<Rightarrow> 'a list \<Rightarrow> bool option" where
  \<comment> \<open>\<open>for x in xs: if f(x): return True\<close>, then false.\<close>
  "any_m f [] = Some False"
| "any_m f (x # xs) = do { b \<leftarrow> f x; if b then Some True else any_m f xs }"

fun filter_m :: "('a \<Rightarrow> bool option) \<Rightarrow> 'a list \<Rightarrow> 'a list option" where
  \<comment> \<open>\<open>for x in xs: if f(x): out.append(x)\<close>\<close>
  "filter_m f [] = Some []"
| "filter_m f (x # xs) =
     do { b \<leftarrow> f x; ys \<leftarrow> filter_m f xs; Some (if b then x # ys else ys) }"

fun map_m :: "('a \<Rightarrow> 'b option) \<Rightarrow> 'a list \<Rightarrow> 'b list option" where
  "map_m f [] = Some []"
| "map_m f (x # xs) = do { y \<leftarrow> f x; ys \<leftarrow> map_m f xs; Some (y # ys) }"

subsection \<open>The game object\<close>

text \<open>
  A selector (\<open>active_9x9_block\<close>, \<open>active_3x3_block\<close>) is Python's \<open>None\<close>, the pair
  \<open>(r, c)\<close> that \<open>make_move\<close> assigns, or the two-element list \<open>[r, c]\<close> that
  \<open>json.load\<close> produces for a saved pair. Both unpack as \<open>r, c = sel\<close>; only the tuple is
  \<open>==\<close> to a tuple.
\<close>

datatype selector = PyNone | PyTuple int int | PyList int int

record game_logic =
  board :: "string list list"
  blocks_3x3 :: "string list list"
  blocks_9x9 :: "string list list"
  blocks_state_3x3 :: "string list list list list"
  blocks_state_9x9 :: "string list list list list"
  current_player :: string
  active_9x9_block :: selector
  active_3x3_block :: selector
  status :: string

definition init_game :: game_logic where
  \<comment> \<open>\<open>GameLogic.__init__\<close>\<close>
  "init_game =
     \<lparr> board = replicate 27 (replicate 27 ''''),
       blocks_3x3 = replicate 9 (replicate 9 ''''),
       blocks_9x9 = replicate 3 (replicate 3 ''''),
       blocks_state_3x3 = replicate 9 (replicate 9 (replicate 3 (replicate 3 ''''))),
       blocks_state_9x9 = replicate 3 (replicate 3 (replicate 3 (replicate 3 ''''))),
       current_player = ''X'',
       active_9x9_block = PyNone,
       active_3x3_block = PyNone,
       status = ''playing'' \<rparr>"

definition reset_game :: "game_logic \<Rightarrow> game_logic" where
  \<comment> \<open>\<open>reset_game\<close> runs \<open>__init__\<close> again on the object.\<close>
  "reset_game s = init_game"

fun unpack :: "selector \<Rightarrow> (int \<times> int) option" where
  \<comment> \<open>\<open>r, c = sel\<close>; unpacking \<open>None\<close> raises.\<close>
  "unpack PyNone = None"
| "unpack (PyTuple r c) = Some (r, c)"
| "unpack (PyList r c) = Some (r, c)"

subsection \<open>Win checks\<close>

definition scan_lines :: "string list list \<Rightarrow> string \<Rightarrow> bool option" where
  \<comment> \<open>The body shared by the three win checks: rows, then columns, then the two diagonals.\<close>
  "scan_lines block player =
     (if list_ex (list_all (\<lambda>cell. cell = player)) block then Some True
      else do {
        c \<leftarrow> any_m (\<lambda>col. all_m (\<lambda>row. do { x \<leftarrow> get2 block row col; Some (x = player) })
                              [0, 1, 2]) [0, 1, 2];
        if c then Some True
        else do {
          d \<leftarrow> all_m (\<lambda>i. do { x \<leftarrow> get2 block i i; Some (x = player) }) [0, 1, 2];
          if d then Some True
          else do {
            e \<leftarrow> all_m (\<lambda>i. do { x \<leftarrow> get2 block i (2 - i); Some (x = player) }) [0, 1, 2];
            if e then Some True else Some False
          }
        }
      })"

definition check_block_3x3_win :: "game_logic \<Rightarrow> int \<Rightarrow> int \<Rightarrow> bool option" where
  \<comment> \<open>\<open>_check_block_3x3_win\<close>\<close>
  "check_block_3x3_win s block_row block_col =
     do { block \<leftarrow> get2 (blocks_state_3x3 s) block_row block_col;
          scan_lines block (current_player s) }"

definition check_block_9x9_win :: "game_logic \<Rightarrow> int \<Rightarrow> int \<Rightarrow> bool option" where
  \<comment> \<open>\<open>_check_block_9x9_win\<close>\<close>
  "check_block_9x9_win s block_row block_col =
     do { block \<leftarrow> get2 (blocks_state_9x9 s) block_row block_col;
          scan_lines block (current_player s) }"

definition check_game_win :: "game_logic \<Rightarrow> bool option" where
  \<comment> \<open>\<open>_check_game_win\<close>\<close>
  "check_game_win s = scan_lines (blocks_9x9 s) (current_player s)"

subsection \<open>Making a move\<close>

fun violates :: "selector \<Rightarrow> int \<Rightarrow> int \<Rightarrow> bool" where
  \<comment> \<open>\<open>sel is not None\<close> and the unpacked pair differs from \<open>(r, c)\<close>.\<close>
  "violates PyNone r c = False"
| "violates (PyTuple a b) r c = (r \<noteq> a \<or> c \<noteq> b)"
| "violates (PyList a b) r c = (r \<noteq> a \<or> c \<noteq> b)"

definition violates_3x3 :: "game_logic \<Rightarrow> int \<Rightarrow> int \<Rightarrow> int \<Rightarrow> int \<Rightarrow> bool option" where
  \<comment> \<open>Lines 149-158: the 3x3 constraint binds only while the move's 9x9 block is not won.\<close>
  "violates_3x3 s block_9x9_row block_9x9_col block_3x3_row_local block_3x3_col_local =
     (if block_9x9_row < 3 \<and> block_9x9_col < 3 then
        do { w \<leftarrow> get2 (blocks_9x9 s) block_9x9_row block_9x9_col;
             if w = '''' then
               Some (violates (active_3x3_block s) block_3x3_row_local block_3x3_col_local)
             else Some False }
      else Some False)"

definition switch_player :: "game_logic \<Rightarrow> game_logic" where
  \<comment> \<open>Line 241.\<close>
  "switch_player s = s\<lparr>current_player := (if current_player s = ''X'' then ''O'' else ''X'')\<rparr>"

definition target_3x3 :: "game_logic \<Rightarrow> int \<Rightarrow> int \<Rightarrow> int \<Rightarrow> int \<Rightarrow> selector option" where
  \<comment> \<open>Lines 213-221 and 231-238: the 3x3 selector inside the chosen 9x9 block.\<close>
  "target_3x3 s b9_row b9_col target_3x3_row target_3x3_col =
     do { w \<leftarrow> get2 (blocks_3x3 s) (b9_row * 3 + target_3x3_row) (b9_col * 3 + target_3x3_col);
          Some (if w \<noteq> '''' then PyNone else PyTuple target_3x3_row target_3x3_col) }"

definition redirect_after_win :: "game_logic \<Rightarrow> int \<Rightarrow> int \<Rightarrow> (bool \<times> game_logic) option" where
  \<comment> \<open>Lines 195-221, then the switch of player and \<open>return True\<close>.\<close>
  "redirect_after_win s row col =
     (let next_9x9_row = (row div 3) mod 3; next_9x9_col = (col div 3) mod 3 in
      do { w \<leftarrow> get2 (blocks_9x9 s) next_9x9_row next_9x9_col;
           if w \<noteq> '''' then
             Some (True, switch_player (s\<lparr>active_9x9_block := PyNone, active_3x3_block := PyNone\<rparr>))
           else
             do { t \<leftarrow> target_3x3 s next_9x9_row next_9x9_col (row mod 3) (col mod 3);
                  Some (True, switch_player
                    (s\<lparr>active_9x9_block := PyTuple next_9x9_row next_9x9_col,
                       active_3x3_block := t\<rparr>)) } })"

definition win_branch :: "game_logic \<Rightarrow> int \<Rightarrow> int \<Rightarrow> (bool \<times> game_logic) option" where
  \<comment> \<open>Lines 176-221: the move has completed a line of its 3x3 block.\<close>
  "win_branch s row col =
     do { b3 \<leftarrow> set2 (blocks_3x3 s) (row div 3) (col div 3) (current_player s);
          bs9 \<leftarrow> set4 (blocks_state_9x9 s) (row div 9) (col div 9)
                   ((row div 3) mod 3) ((col div 3) mod 3) (current_player s);
          let s2 = s\<lparr>blocks_3x3 := b3, blocks_state_9x9 := bs9\<rparr>;
          w9 \<leftarrow> check_block_9x9_win s2 (row div 9) (col div 9);
          if w9 then
            do { b9 \<leftarrow> set2 (blocks_9x9 s2) (row div 9) (col div 9) (current_player s2);
                 let s3 = s2\<lparr>blocks_9x9 := b9\<rparr>;
                 gw \<leftarrow> check_game_win s3;
                 if gw then Some (True, s3\<lparr>status := current_player s3 @ ''_wins''\<rparr>)
                 else redirect_after_win s3 row col }
          else redirect_after_win s2 row col }"

definition no_win_branch :: "game_logic \<Rightarrow> int \<Rightarrow> int \<Rightarrow> (bool \<times> game_logic) option" where
  \<comment> \<open>Lines 222-243: no 3x3 block was won.\<close>
  "no_win_branch s row col =
     do { t \<leftarrow> target_3x3 s (row div 9) (col div 9) (row mod 3) (col mod 3);
          Some (True, switch_player
            (s\<lparr>active_9x9_block := PyTuple (row div 9) (col div 9), active_3x3_block := t\<rparr>)) }"

definition place_mark :: "game_logic \<Rightarrow> int \<Rightarrow> int \<Rightarrow> game_logic option" where
  \<comment> \<open>Lines 164-170.\<close>
  "place_mark s row col =
     do { b \<leftarrow> set2 (board s) row col (current_player s);
          bs \<leftarrow> set4 (blocks_state_3x3 s) (row div 3) (col div 3) (row mod 3) (col mod 3)
                  (current_player s);
          Some (s\<lparr>board := b, blocks_state_3x3 := bs\<rparr>) }"

definition apply_move :: "game_logic \<Rightarrow> int \<Rightarrow> int \<Rightarrow> (bool \<times> game_logic) option" where
  \<comment> \<open>Lines 164-243: everything after the checks.\<close>
  "apply_move s row col =
     do { s1 \<leftarrow> place_mark s row col;
          block_won \<leftarrow> check_block_3x3_win s1 (row div 3) (col div 3);
          if block_won then win_branch s1 row col else no_win_branch s1 row col }"

definition make_move :: "game_logic \<Rightarrow> int \<Rightarrow> int \<Rightarrow> (bool \<times> game_logic) option" where
  \<comment> \<open>\<open>make_move\<close>: the returned boolean and the object after the call.\<close>
  "make_move s row col =
     (if status s \<noteq> ''playing'' then Some (False, s)
      else if row < 0 \<or> row \<ge> 27 \<or> col < 0 \<or> col \<ge> 27 then Some (False, s)
      else do {
        cell \<leftarrow> get2 (board s) row col;
        if cell \<noteq> '''' then Some (False, s)
        else if violates (active_9x9_block s) (row div 9) (col div 9) then Some (False, s)
        else do {
          bad \<leftarrow> violates_3x3 s (row div 9) (col div 9) ((row div 3) mod 3) ((col div 3) mod 3);
          if bad then Some (False, s)
          else do {
            w \<leftarrow> get2 (blocks_3x3 s) (row div 3) (col div 3);
            if w \<noteq> '''' then Some (False, s) else apply_move s row col
          }
        }
      })"

subsection \<open>Enumerating the valid moves\<close>

definition grid3 :: "(int \<times> int) list" where
  \<comment> \<open>\<open>for r in range(3): for c in range(3)\<close>\<close>
  "grid3 = [(r, c). r \<leftarrow> [0, 1, 2], c \<leftarrow> [0, 1, 2]]"

definition free_blocks_9x9 :: "game_logic \<Rightarrow> (int \<times> int) list option" where
  \<comment> \<open>Lines 70-74.\<close>
  "free_blocks_9x9 s =
     filter_m (\<lambda>(r, c). do { w \<leftarrow> get2 (blocks_9x9 s) r c; Some (w = '''') }) grid3"

definition free_blocks_3x3 :: "game_logic \<Rightarrow> int \<Rightarrow> int \<Rightarrow> (int \<times> int) list option" where
  \<comment> \<open>Lines 90-99.\<close>
  "free_blocks_3x3 s b9x9_row b9x9_col =
     filter_m (\<lambda>(r, c). do { w \<leftarrow> get2 (blocks_3x3 s) (b9x9_row * 3 + r) (b9x9_col * 3 + c);
                              Some (w = '''') }) grid3"

definition empty_cells :: "game_logic \<Rightarrow> int \<Rightarrow> int \<Rightarrow> (int \<times> int) list option" where
  \<comment> \<open>Lines 109-112, for the 3x3 block whose first cell is \<open>(start_row, start_col)\<close>.\<close>
  "empty_cells s start_row start_col =
     filter_m (\<lambda>(row, col). do { x \<leftarrow> get2 (board s) row col; Some (x = '''') })
       [(start_row + r, start_col + c). r \<leftarrow> [0, 1, 2], c \<leftarrow> [0, 1, 2]]"

definition moves_in_9x9 :: "game_logic \<Rightarrow> int \<times> int \<Rightarrow> (int \<times> int) list option" where
  \<comment> \<open>One round of the loop of lines 80-112.\<close>
  "moves_in_9x9 s b =
     (case b of (b9x9_row, b9x9_col) \<Rightarrow>
      do { active_blocks_3x3 \<leftarrow>
             (if active_9x9_block s = PyTuple b9x9_row b9x9_col \<and> active_3x3_block s \<noteq> PyNone
              then do { p \<leftarrow> unpack (active_3x3_block s); Some [p] }
              else free_blocks_3x3 s b9x9_row b9x9_col);
           cells \<leftarrow> map_m (\<lambda>(b3x3_row, b3x3_col).
                      empty_cells s ((b9x9_row * 3 + b3x3_row) * 3) ((b9x9_col * 3 + b3x3_col) * 3))
                    active_blocks_3x3;
           Some (concat cells) })"

definition get_valid_moves :: "game_logic \<Rightarrow> (int \<times> int) list option" where
  \<comment> \<open>\<open>get_valid_moves\<close>\<close>
  "get_valid_moves s =
     (if status s \<noteq> ''playing'' then Some []
      else do {
        active_blocks_9x9 \<leftarrow>
          (if active_9x9_block s = PyNone then free_blocks_9x9 s
           else do { p \<leftarrow> unpack (active_9x9_block s); Some [p] });
        cells \<leftarrow> map_m (moves_in_9x9 s) active_blocks_9x9;
        Some (concat cells)
      })"

subsection \<open>Playing a sequence of moves\<close>

fun play :: "game_logic \<Rightarrow> (int \<times> int) list \<Rightarrow> game_logic option" where
  \<comment> \<open>\<open>for (row, col) in moves: game.make_move(row, col)\<close>, whatever each call returns.\<close>
  "play s [] = Some s"
| "play s (m # ms) = do { (b, s') \<leftarrow> make_move s (fst m) (snd m); play s' ms }"

inductive reachable :: "game_logic \<Rightarrow> bool" where
  fresh: "reachable init_game"
| move: "reachable s \<Longrightarrow> make_move s row col = Some (b, s') \<Longrightarrow> reachable s'"
| reset: "reachable s \<Longrightarrow> reachable (reset_game s)"

subsection \<open>Well-formed game objects\<close>

definition grid_dims :: "nat \<Rightarrow> nat \<Rightarrow> 'a list list \<Rightarrow> bool" where
  \<comment> \<open>A list of \<open>n\<close> rows of \<open>m\<close> entries each.\<close>
  "grid_dims n m g = (length g = n \<and> (\<forall>r \<in> set g. length r = m))"

definition wf_game :: "game_logic \<Rightarrow> bool" where
  \<comment> \<open>The grids have the sizes that \<open>__init__\<close> gives them.\<close>
  "wf_game s =
     (grid_dims 27 27 (board s) \<and> grid_dims 9 9 (blocks_3x3 s) \<and> grid_dims 3 3 (blocks_9x9 s) \<and>
      grid_dims 9 9 (blocks_state_3x3 s) \<and>
      (\<forall>r \<in> set (blocks_state_3x3 s). \<forall>b \<in> set r. grid_dims 3 3 b) \<and>
      grid_dims 3 3 (blocks_state_9x9 s) \<and>
      (\<forall>r \<in> set (blocks_state_9x9 s). \<forall>b \<in> set r. grid_dims 3 3 b))"

subsection \<open>Observing a game after a sequence of moves\<close>

definition move_report :: "(int \<times> int) list \<Rightarrow> int \<Rightarrow> int \<Rightarrow> (string \<times> bool \<times> bool) option" where
  \<comment> \<open>After the moves \<open>ms\<close>: the status, what \<open>make_move(row, col)\<close> returns, and whether
      \<open>(row, col) in get_valid_moves()\<close> just before that call.\<close>
  "move_report ms row col =
     do { s \<leftarrow> play init_game ms;
          v \<leftarrow> get_valid_moves s;
          (b, s') \<leftarrow> make_move s row col;
          Some (status s, b, (row, col) \<in> set v) }"

definition winner_report ::
  "(int \<times> int) list \<Rightarrow> int \<Rightarrow> int \<Rightarrow> int \<Rightarrow> int \<Rightarrow> (string \<times> bool \<times> string) option" where
  \<comment> \<open>After the moves \<open>ms\<close>: \<open>blocks_9x9[r][c]\<close> before \<open>make_move(row, col)\<close>, what the call
      returns, and \<open>blocks_9x9[r][c]\<close> after it.\<close>
  "winner_report ms row col r c =
     do { s \<leftarrow> play init_game ms;
          w \<leftarrow> get2 (blocks_9x9 s) r c;
          (b, s') \<leftarrow> make_move s row col;
          w' \<leftarrow> get2 (blocks_9x9 s') r c;
          Some (w, b, w') }"

definition player_report ::
  "(int \<times> int) list \<Rightarrow> int \<Rightarrow> int \<Rightarrow> (string \<times> bool \<times> string \<times> string) option" where
  \<comment> \<open>After the moves \<open>ms\<close>: \<open>current_player\<close> before \<open>make_move(row, col)\<close>, what the call
      returns, and \<open>current_player\<close> and \<open>status\<close> after it.\<close>
  "player_report ms row col =
     do { s \<leftarrow> play init_game ms;
          (b, s') \<leftarrow> make_move s row col;
          Some (current_player s, b, current_player s', status s') }"

definition game_after :: "(int \<times> int) list \<Rightarrow> game_logic" where
  \<comment> \<open>The game object after the moves \<open>ms\<close>, none of which raises.\<close>
  "game_after ms = the (play init_game ms)"

definition moved :: "game_logic \<Rightarrow> int \<Rightarrow> int \<Rightarrow> game_logic" where
  \<comment> \<open>The game object after \<open>make_move(row, col)\<close>, when the call does not raise.\<close>
  "moved s row col = snd (the (make_move s row col))"

definition opening_25 :: "(int \<times> int) list" where
  \<comment> \<open>X wins the 3x3 blocks (0,1), (0,2), (0,0) of the 9x9 block (0,0); O wins a 3x3 block
      in each of the 9x9 blocks (0,1) and (0,2) in between.\<close>
  "opening_25 =
     [(1, 3), (3, 1), (2, 3), (6, 1), (0, 3),
      (1, 11), (3, 15), (2, 11), (6, 15), (0, 11),
      (1, 6), (3, 2), (2, 6), (6, 2), (0, 6),
      (1, 18), (3, 18), (2, 18), (6, 18), (0, 18),
      (1, 1), (3, 3), (1, 2), (3, 6), (1, 0)]"

definition middle_18 :: "(int \<times> int) list" where
  \<comment> \<open>After \<open>opening_25\<close>: O wins the 3x3 blocks (1,0) and (1,1) of the 9x9 block (0,0), which X
      has won, and has two marks in a row in its 3x3 block (1,2).\<close>
  "middle_18 =
     [(3, 0), (10, 0), (12, 0), (11, 0), (15, 0), (9, 0),
      (3, 4), (7, 4), (3, 5),
      (9, 15), (10, 9), (12, 9), (11, 9), (15, 9), (9, 9),
      (6, 3), (3, 7), (6, 4)]"

definition full_game_52 :: "(int \<times> int) list" where
  \<comment> \<open>A game in which X has won the 9x9 blocks (0,0) and (0,1) and two 3x3 blocks of the top
      row of the 9x9 block (0,2), and has two marks in a row in the third.\<close>
  "full_game_52 =
     [(0, 3), (0, 1), (0, 5), (0, 7), (0, 4), (0, 14),
      (1, 15), (3, 11), (1, 16), (3, 14), (1, 17), (3, 24),
      (0, 19), (0, 21), (0, 20), (0, 24), (0, 18), (0, 2),
      (1, 6), (3, 2), (1, 7), (3, 5), (1, 8), (3, 25),
      (1, 21), (3, 19), (1, 22), (3, 22), (1, 23), (3, 15),
      (1, 9), (3, 9), (1, 10), (3, 12), (1, 11), (3, 6),
      (1, 0), (3, 0), (1, 1), (3, 3), (1, 2), (0, 13),
      (2, 12), (6, 10), (2, 13), (6, 13), (2, 14), (0, 26),
      (1, 24), (3, 20), (1, 25), (3, 23)]"

subsection \<open>The six precondition checks and the line check, as the specification words them\<close>

definition precondition_1 :: "game_logic \<Rightarrow> bool" where
  \<comment> \<open>The status must be Playing.\<close>
  "precondition_1 s = (status s = ''playing'')"

definition precondition_2 :: "int \<Rightarrow> int \<Rightarrow> bool" where
  \<comment> \<open>The coordinates lie on the 27x27 board.\<close>
  "precondition_2 row col = (0 \<le> row \<and> row < 27 \<and> 0 \<le> col \<and> col < 27)"

definition precondition_3 :: "game_logic \<Rightarrow> int \<Rightarrow> int \<Rightarrow> bool" where
  \<comment> \<open>The target cell is empty.\<close>
  "precondition_3 s row col = (board s ! nat row ! nat col = '''')"

definition precondition_4 :: "game_logic \<Rightarrow> int \<Rightarrow> int \<Rightarrow> bool" where
  \<comment> \<open>If a 9x9 block is active, the move lies in it.\<close>
  "precondition_4 s row col =
     (active_9x9_block s \<noteq> PyNone \<longrightarrow> unpack (active_9x9_block s) = Some (row div 9, col div 9))"

definition precondition_5 :: "game_logic \<Rightarrow> int \<Rightarrow> int \<Rightarrow> bool" where
  \<comment> \<open>If the move's 9x9 block has no winner and a 3x3 block is active, the move lies in it.\<close>
  "precondition_5 s row col =
     (blocks_9x9 s ! nat (row div 9) ! nat (col div 9) = '''' \<and> active_3x3_block s \<noteq> PyNone \<longrightarrow>
      unpack (active_3x3_block s) = Some ((row div 3) mod 3, (col div 3) mod 3))"

definition precondition_6 :: "game_logic \<Rightarrow> int \<Rightarrow> int \<Rightarrow> bool" where
  \<comment> \<open>The move's 3x3 block has no winner.\<close>
  "precondition_6 s row col = (blocks_3x3 s ! nat (row div 3) ! nat (col div 3) = '''')"

definition preconditions :: "game_logic \<Rightarrow> int \<Rightarrow> int \<Rightarrow> bool" where
  "preconditions s row col =
     (precondition_1 s \<and> precondition_2 row col \<and> precondition_3 s row col \<and>
      precondition_4 s row col \<and> precondition_5 s row col \<and> precondition_6 s row col)"

definition lines3 :: "(nat \<times> nat) list list" where
  \<comment> \<open>The 3 rows, the 3 columns and the 2 diagonals of a 3x3 grid.\<close>
  "lines3 =
     [[(0, 0), (0, 1), (0, 2)], [(1, 0), (1, 1), (1, 2)], [(2, 0), (2, 1), (2, 2)],
      [(0, 0), (1, 0), (2, 0)], [(0, 1), (1, 1), (2, 1)], [(0, 2), (1, 2), (2, 2)],
      [(0, 0), (1, 1), (2, 2)], [(0, 2), (1, 1), (2, 0)]]"

definition line_complete :: "string list list \<Rightarrow> string \<Rightarrow> bool" where
  \<comment> \<open>Some line of the grid has all three entries equal to \<open>mark\<close>.\<close>
  "line_complete grid mark = list_ex (list_all (\<lambda>(r, c). grid ! r ! c = mark)) lines3"

definition opposite :: "string \<Rightarrow> string" where
  \<comment> \<open>The other player.\<close>
  "opposite p = (if p = ''X'' then ''O'' else ''X'')"

definition get4 :: "'a list list list list \<Rightarrow> int \<Rightarrow> int \<Rightarrow> int \<Rightarrow> int \<Rightarrow> 'a option" where
  \<comment> \<open>\<open>g[i][j][k][l]\<close>\<close>
  "get4 g i j k l = do { b \<leftarrow> get2 g i j; get2 b k l }"

subsection \<open>Saving and loading (\<open>game_persistence.py\<close>)\<close>

text \<open>
  The save file is modelled by the JSON value it holds. \<open>json.dump\<close> writes a \<open>str\<close> as a
  string, \<open>None\<close> as \<open>null\<close>, and a list and a tuple alike as an array; \<open>json.load\<close> reads
  an array back as a list. \<open>load_game\<close> assigns what it reads without any check; the
  readers below return \<open>None\<close> where the value read is not one of the field's model type,
  and the lookup of a missing key raises \<open>KeyError\<close>.
\<close>

datatype json = JNull | JString string | JNumber int | JArray "json list"
  | JObject "(string \<times> json) list"

definition dump_grid :: "string list list \<Rightarrow> json" where
  "dump_grid g = JArray (map (\<lambda>r. JArray (map JString r)) g)"

definition dump_grid4 :: "string list list list list \<Rightarrow> json" where
  "dump_grid4 g = JArray (map (\<lambda>r. JArray (map dump_grid r)) g)"

fun dump_selector :: "selector \<Rightarrow> json" where
  "dump_selector PyNone = JNull"
| "dump_selector (PyTuple r c) = JArray [JNumber r, JNumber c]"
| "dump_selector (PyList r c) = JArray [JNumber r, JNumber c]"

definition save_game :: "game_logic \<Rightarrow> string \<Rightarrow> string \<Rightarrow> string \<Rightarrow> json" where
  \<comment> \<open>\<open>save_game\<close>: the dictionary \<open>game_data\<close> as written to the file; \<open>saved_at\<close> is the
      time stamp that \<open>datetime.now().isoformat()\<close> gives.\<close>
  "save_game game_logic player_x_name player_o_name saved_at =
     JObject
       [(''player_x_name'', JString player_x_name),
        (''player_o_name'', JString player_o_name),
        (''current_player'', JString (current_player game_logic)),
        (''status'', JString (status game_logic)),
        (''board'', dump_grid (board game_logic)),
        (''blocks_3x3'', dump_grid (blocks_3x3 game_logic)),
        (''blocks_9x9'', dump_grid (blocks_9x9 game_logic)),
        (''blocks_state_3x3'', dump_grid4 (blocks_state_3x3 game_logic)),
        (''blocks_state_9x9'', dump_grid4 (blocks_state_9x9 game_logic)),
        (''active_9x9_block'', dump_selector (active_9x9_block game_logic)),
        (''active_3x3_block'', dump_selector (active_3x3_block game_logic)),
        (''saved_at'', JString saved_at)]"

fun load_str :: "json \<Rightarrow> string option" where
  "load_str (JString x) = Some x"
| "load_str _ = None"

fun load_row :: "json \<Rightarrow> string list option" where
  "load_row (JArray xs) = map_m load_str xs"
| "load_row _ = None"

fun load_grid :: "json \<Rightarrow> string list list option" where
  "load_grid (JArray rows) = map_m load_row rows"
| "load_grid _ = None"

fun load_grid_row :: "json \<Rightarrow> string list list list option" where
  "load_grid_row (JArray bs) = map_m load_grid bs"
| "load_grid_row _ = None"

fun load_grid4 :: "json \<Rightarrow> string list list list list option" where
  "load_grid4 (JArray rows) = map_m load_grid_row rows"
| "load_grid4 _ = None"

fun load_selector :: "json \<Rightarrow> selector option" where
  "load_selector JNull = Some PyNone"
| "load_selector (JArray [JNumber r, JNumber c]) = Some (PyList r c)"
| "load_selector _ = None"

definition load_game :: "json \<Rightarrow> (game_logic \<times> string \<times> string) option" where
  \<comment> \<open>\<open>load_game\<close>: a new \<open>GameLogic()\<close> whose nine fields are assigned from the file.\<close>
  "load_game file =
     (case file of
        JObject game_data \<Rightarrow>
          do { cp \<leftarrow> map_of game_data ''current_player'' \<bind> load_str;
               st \<leftarrow> map_of game_data ''status'' \<bind> load_str;
               b \<leftarrow> map_of game_data ''board'' \<bind> load_grid;
               b3 \<leftarrow> map_of game_data ''blocks_3x3'' \<bind> load_grid;
               b9 \<leftarrow> map_of game_data ''blocks_9x9'' \<bind> load_grid;
               bs3 \<leftarrow> map_of game_data ''blocks_state_3x3'' \<bind> load_grid4;
               bs9 \<leftarrow> map_of game_data ''blocks_state_9x9'' \<bind> load_grid4;
               a9 \<leftarrow> map_of game_data ''active_9x9_block'' \<bind> load_selector;
               a3 \<leftarrow> map_of game_data ''active_3x3_block'' \<bind> load_selector;
               player_x_name \<leftarrow> map_of game_data ''player_x_name'' \<bind> load_str;
               player_o_name \<leftarrow> map_of game_data ''player_o_name'' \<bind> load_str;
               Some (init_game\<lparr>current_player := cp, status := st, board := b, blocks_3x3 := b3,
                       blocks_9x9 := b9, blocks_state_3x3 := bs3, blocks_state_9x9 := bs9,
                       active_9x9_block := a9, active_3x3_block := a3\<rparr>,
                     player_x_name, player_o_name) }
      | _ \<Rightarrow> None)"

fun as_loaded :: "selector \<Rightarrow> selector" where
  \<comment> \<open>A selector after a save and a load: a pair has become a list.\<close>
  "as_loaded PyNone = PyNone"
| "as_loaded (PyTuple r c) = PyList r c"
| "as_loaded (PyList r c) = PyList r c"

definition reload_report :: "game_logic \<Rightarrow> (selector \<times> selector \<times> nat \<times> nat) option" where
  \<comment> \<open>\<open>active_9x9_block\<close> of a game and of the object that \<open>load_game\<close> returns for its
      save file, and the number of moves that \<open>get_valid_moves()\<close> lists on each.\<close>
  "reload_report s =
     do { (g, px, po) \<leftarrow> load_game (save_game s ''x'' ''o'' ''t'');
          v \<leftarrow> get_valid_moves s;
          v' \<leftarrow> get_valid_moves g;
          Some (active_9x9_block s, active_9x9_block g, length v, length v') }"

definition mirrors :: "game_logic \<Rightarrow> bool" where
  \<comment> \<open>Every cell of the board equals its copy in the sub-grid of its 3x3 block.\<close>
  "mirrors s =
     (\<forall>row < 27. \<forall>col < 27.
        board s ! row ! col =
        blocks_state_3x3 s ! (row div 3) ! (col div 3) ! (row mod 3) ! (col mod 3))"

definition wins_3x3_block :: "game_logic \<Rightarrow> int \<Rightarrow> int \<Rightarrow> bool" where
  \<comment> \<open>With the mark placed at \<open>(row, col)\<close>, the check of the move's 3x3 block returns true
      (the test of line 176).\<close>
  "wins_3x3_block s row col =
     (do { s1 \<leftarrow> place_mark s row col; check_block_3x3_win s1 (row div 3) (col div 3) }
      = Some True)"

fun in_grid3 :: "selector \<Rightarrow> bool" where
  \<comment> \<open>\<open>None\<close>, or a pair of indices of a 3x3 grid.\<close>
  "in_grid3 PyNone = True"
| "in_grid3 (PyTuple a b) = (0 \<le> a \<and> a < 3 \<and> 0 \<le> b \<and> b < 3)"
| "in_grid3 (PyList a b) = False"

definition selectors_ok :: "game_logic \<Rightarrow> bool" where
  \<comment> \<open>What \<open>make_move\<close> keeps true of the two selectors: a 3x3 selector comes with a 9x9
      selector and, while the game is in play, points to a 3x3 block without winner.\<close>
  "selectors_ok s =
     (in_grid3 (active_9x9_block s) \<and> in_grid3 (active_3x3_block s) \<and>
      (active_9x9_block s = PyNone \<longrightarrow> active_3x3_block s = PyNone) \<and>
      (status s = ''playing'' \<longrightarrow>
         (\<forall>A B a b. active_9x9_block s = PyTuple A B \<and> active_3x3_block s = PyTuple a b \<longrightarrow>
            blocks_3x3 s ! nat (A * 3 + a) ! nat (B * 3 + b) = '''')))"

section \<open>Properties\<close>

subsection \<open>Reading and writing inside the bounds\<close>

lemma py_get_in_range:
  "0 \<le> i \<Longrightarrow> i < int (length xs) \<Longrightarrow> py_get xs i = Some (xs ! nat i)"
  by (simp add: py_get_def)

lemma py_set_in_range:
  "0 \<le> i \<Longrightarrow> i < int (length xs) \<Longrightarrow> py_set xs i v = Some (xs[nat i := v])"
  by (simp add: py_set_def)

lemma py_set_length: "py_set xs i v = Some ys \<Longrightarrow> length ys = length xs"
  by (auto simp: py_set_def split: if_splits)

lemma py_get_mem: "py_get xs i = Some x \<Longrightarrow> x \<in> set xs"
  by (auto simp: py_get_def split: if_splits)

lemma py_set_subset: "py_set xs i v = Some ys \<Longrightarrow> set ys \<subseteq> insert v (set xs)"
  by (auto simp: py_set_def split: if_splits dest: subsetD [OF set_update_subset_insert])

lemma grid_dims_row: "grid_dims n m g \<Longrightarrow> i < n \<Longrightarrow> length (g ! i) = m"
  by (simp add: grid_dims_def)

lemma get2_in_range:
  assumes "grid_dims n m g" "0 \<le> i" "i < int n" "0 \<le> j" "j < int m"
  shows "get2 g i j = Some (g ! nat i ! nat j)"
proof -
  from assms have len: "length g = n" and row: "length (g ! nat i) = m"
    by (simp_all add: grid_dims_def)
  with assms show ?thesis
    by (simp add: get2_def py_get_in_range)
qed

lemma set2_in_range:
  assumes "grid_dims n m g" "0 \<le> i" "i < int n" "0 \<le> j" "j < int m"
  shows "set2 g i j v = Some (g[nat i := (g ! nat i)[nat j := v]])"
proof -
  from assms have len: "length g = n" and row: "length (g ! nat i) = m"
    by (simp_all add: grid_dims_def)
  with assms show ?thesis
    by (simp add: set2_def py_get_in_range py_set_in_range)
qed

lemma set2_dims:
  assumes "set2 g i j v = Some g'" "grid_dims n m g"
  shows "grid_dims n m g'"
proof -
  from assms(1) obtain r r' where r: "py_get g i = Some r" and r': "py_set r j v = Some r'"
    and g': "py_set g i r' = Some g'"
    by (auto simp: set2_def split: bind_splits)
  from r assms(2) have "length r = m" by (auto simp: grid_dims_def dest: py_get_mem)
  with r' have "length r' = m" by (simp add: py_set_length)
  with g' assms(2) show ?thesis
    by (auto simp: grid_dims_def py_set_length dest: subsetD [OF py_set_subset])
qed

subsection \<open>A finished game\<close>

text \<open>
  Claim C9. When the status is not \<open>"playing"\<close>, every call of \<open>make_move\<close> returns false
  and leaves every field of the game as it was, and \<open>get_valid_moves\<close> returns the empty
  list. Neither call raises: the status is the first thing each of them looks at.
\<close>

theorem finished_game_is_frozen:
  "status s \<noteq> ''playing'' \<Longrightarrow>
     make_move s row col = Some (False, s) \<and> get_valid_moves s = Some []"
  by (simp add: make_move_def get_valid_moves_def)

theorem finished_game_is_frozen_witness:
  "status (init_game\<lparr>status := ''X_wins''\<rparr>) \<noteq> ''playing'' \<and>
   make_move (init_game\<lparr>status := ''X_wins''\<rparr>) 0 0 = Some (False, init_game\<lparr>status := ''X_wins''\<rparr>) \<and>
   get_valid_moves (init_game\<lparr>status := ''X_wins''\<rparr>) = Some []"
proof -
  have h: "status (init_game\<lparr>status := ''X_wins''\<rparr>) \<noteq> ''playing''" by simp
  show ?thesis using h finished_game_is_frozen [OF h, of 0 0] by simp
qed

subsection \<open>The three win checks\<close>

lemma list3: "length xs = 3 \<Longrightarrow> \<exists>a b c. xs = [a, b, c]"
  by (auto simp: numeral_3_eq_3 length_Suc_conv)

lemma grid3_shape:
  assumes "grid_dims 3 3 g"
  shows "\<exists>a b c d e f h i j. g = [[a, b, c], [d, e, f], [h, i, j]]"
proof -
  from assms obtain r0 r1 r2 where g: "g = [r0, r1, r2]"
    by (auto simp: grid_dims_def dest: list3)
  with assms have "length r0 = 3" "length r1 = 3" "length r2 = 3"
    by (simp_all add: grid_dims_def)
  then show ?thesis unfolding g by (metis list3)
qed

lemma scan_lines_3x3:
  assumes "grid_dims 3 3 block"
  shows "scan_lines block player = Some (line_complete block player)"
proof -
  from grid3_shape [OF assms] obtain a b c d e f h i j
    where g: "block = [[a, b, c], [d, e, f], [h, i, j]]" by blast
  show ?thesis
    unfolding g by (auto simp: scan_lines_def line_complete_def lines3_def get2_def py_get_def)
qed

lemma sub_grid_dims:
  assumes "grid_dims n m g" "\<forall>r \<in> set g. \<forall>b \<in> set r. grid_dims 3 3 b" "i < n" "j < m"
  shows "grid_dims 3 3 (g ! i ! j)"
proof -
  from assms have "g ! i \<in> set g" and "length (g ! i) = m"
    by (simp_all add: grid_dims_def)
  with assms show ?thesis by (metis nth_mem)
qed

lemma win_checks_wf:
  assumes "wf_game s"
    and "0 \<le> br" "br < 9" "0 \<le> bc" "bc < 9"
    and "0 \<le> mr" "mr < 3" "0 \<le> mc" "mc < 3"
  shows "check_block_3x3_win s br bc =
           Some (line_complete (blocks_state_3x3 s ! nat br ! nat bc) (current_player s)) \<and>
         check_block_9x9_win s mr mc =
           Some (line_complete (blocks_state_9x9 s ! nat mr ! nat mc) (current_player s)) \<and>
         check_game_win s = Some (line_complete (blocks_9x9 s) (current_player s))"
proof -
  from assms have d3: "grid_dims 9 9 (blocks_state_3x3 s)"
    and d9: "grid_dims 3 3 (blocks_state_9x9 s)" and dg: "grid_dims 3 3 (blocks_9x9 s)"
    by (simp_all add: wf_game_def)
  from assms have "grid_dims 3 3 (blocks_state_3x3 s ! nat br ! nat bc)"
    by (intro sub_grid_dims [OF d3]) (simp_all add: wf_game_def)
  moreover from assms have "grid_dims 3 3 (blocks_state_9x9 s ! nat mr ! nat mc)"
    by (intro sub_grid_dims [OF d9]) (simp_all add: wf_game_def)
  moreover from assms have "get2 (blocks_state_3x3 s) br bc = Some (blocks_state_3x3 s ! nat br ! nat bc)"
    by (intro get2_in_range [OF d3]) simp_all
  moreover from assms have "get2 (blocks_state_9x9 s) mr mc = Some (blocks_state_9x9 s ! nat mr ! nat mc)"
    by (intro get2_in_range [OF d9]) simp_all
  ultimately show ?thesis using dg
    by (simp add: check_block_3x3_win_def check_block_9x9_win_def check_game_win_def scan_lines_3x3)
qed

text \<open>
  Claim C7. On a game whose grids have their sizes, each of the three win checks returns
  true exactly when some row, some column or one of the two diagonals of its 3x3 grid has
  all three entries equal to the mark of the current player: each is \<open>line_complete\<close>
  applied to the sub-grid of cells of a 3x3 block, to the sub-grid of 3x3 winners of a
  9x9 block, and to the grid of 9x9 winners.
\<close>

theorem win_checks_are_line_complete:
  assumes "wf_game s"
    and "0 \<le> br" "br < 9" "0 \<le> bc" "bc < 9"
    and "0 \<le> mr" "mr < 3" "0 \<le> mc" "mc < 3"
  shows "check_block_3x3_win s br bc =
           Some (line_complete (blocks_state_3x3 s ! nat br ! nat bc) (current_player s)) \<and>
         check_block_9x9_win s mr mc =
           Some (line_complete (blocks_state_9x9 s ! nat mr ! nat mc) (current_player s)) \<and>
         check_game_win s = Some (line_complete (blocks_9x9 s) (current_player s))"
  using assms by (rule win_checks_wf)

lemma wf_init_game: "wf_game init_game"
  by (simp add: wf_game_def init_game_def grid_dims_def)

theorem win_checks_are_line_complete_witness:
  "wf_game init_game \<and> (0::int) \<le> 4 \<and> (4::int) < 9 \<and> (0::int) \<le> 1 \<and> (1::int) < 3 \<and>
   check_block_3x3_win init_game 4 4 = Some False \<and>
   check_block_9x9_win init_game 1 1 = Some False \<and>
   check_game_win init_game = Some False"
proof -
  have e: "line_complete (replicate 3 (replicate 3 '''')) ''X'' = False"
    by (simp add: line_complete_def lines3_def numeral_3_eq_3)
  have "blocks_state_3x3 init_game ! nat 4 ! nat 4 = replicate 3 (replicate 3 '''')"
    "blocks_state_9x9 init_game ! nat 1 ! nat 1 = replicate 3 (replicate 3 '''')"
    "blocks_9x9 init_game = replicate 3 (replicate 3 '''')" "current_player init_game = ''X''"
    by (simp_all add: init_game_def)
  with e win_checks_are_line_complete [OF wf_init_game, of 4 4 1 1] wf_init_game
  show ?thesis by simp
qed

subsection \<open>The checks of \<open>make_move\<close>\<close>

lemma get2_nonneg:
  "get2 g i j = Some w \<Longrightarrow> 0 \<le> i \<Longrightarrow> 0 \<le> j \<Longrightarrow> w = g ! nat i ! nat j"
  by (auto simp: get2_def py_get_def split: bind_splits if_splits)

lemma violates_iff: "violates sel r c \<longleftrightarrow> sel \<noteq> PyNone \<and> unpack sel \<noteq> Some (r, c)"
  by (cases sel) auto

lemma wins_not_playing: "p @ ''_wins'' \<noteq> ''playing''"
proof
  assume "p @ ''_wins'' = ''playing''"
  then have "rev (p @ ''_wins'') = rev ''playing''" by simp
  then show False by simp
qed

lemma cell_reads:
  assumes "wf_game s" "0 \<le> row" "row < 27" "0 \<le> col" "col < 27"
  shows "get2 (board s) row col = Some (board s ! nat row ! nat col)"
    and "get2 (blocks_3x3 s) (row div 3) (col div 3) =
           Some (blocks_3x3 s ! nat (row div 3) ! nat (col div 3))"
    and "get2 (blocks_9x9 s) (row div 9) (col div 9) =
           Some (blocks_9x9 s ! nat (row div 9) ! nat (col div 9))"
proof -
  from assms(1) have b: "grid_dims 27 27 (board s)" and b3: "grid_dims 9 9 (blocks_3x3 s)"
    and b9: "grid_dims 3 3 (blocks_9x9 s)" by (simp_all add: wf_game_def)
  from assms show "get2 (board s) row col = Some (board s ! nat row ! nat col)"
    by (intro get2_in_range [OF b]) simp_all
  from assms show "get2 (blocks_3x3 s) (row div 3) (col div 3) =
      Some (blocks_3x3 s ! nat (row div 3) ! nat (col div 3))"
    by (intro get2_in_range [OF b3]) auto
  from assms show "get2 (blocks_9x9 s) (row div 9) (col div 9) =
      Some (blocks_9x9 s ! nat (row div 9) ! nat (col div 9))"
    by (intro get2_in_range [OF b9]) auto
qed

lemmas precondition_defs =
  preconditions_def precondition_1_def precondition_2_def precondition_3_def
  precondition_4_def precondition_5_def precondition_6_def

lemma make_move_accepts:
  assumes "wf_game s" "preconditions s row col"
  shows "make_move s row col = apply_move s row col"
proof -
  from assms(2) have r: "0 \<le> row" "row < 27" "0 \<le> col" "col < 27"
    by (simp_all add: preconditions_def precondition_2_def)
  with cell_reads [OF assms(1) r] assms(2) show ?thesis
    by (auto simp: make_move_def precondition_defs violates_3x3_def violates_iff)
qed

lemma make_move_rejects:
  assumes "wf_game s" "\<not> preconditions s row col"
  shows "make_move s row col = Some (False, s)"
proof (cases "status s = ''playing'' \<and> 0 \<le> row \<and> row < 27 \<and> 0 \<le> col \<and> col < 27")
  case False
  then show ?thesis by (auto simp: make_move_def)
next
  case True
  with cell_reads [OF assms(1), of row col] assms(2) show ?thesis
    by (auto simp: make_move_def precondition_defs violates_3x3_def violates_iff)
qed

text \<open>
  Claim C4. On a game whose grids have their sizes, for every pair of integers
  \<open>(row, col)\<close>, on the board or not: if one of the six precondition checks fails, then
  \<open>make_move\<close> raises nothing, returns false and leaves every field of the game as it was.
\<close>

theorem rejected_move_changes_nothing:
  assumes "wf_game s" "\<not> preconditions s row col"
  shows "make_move s row col = Some (False, s)"
  using assms by (rule make_move_rejects)

theorem rejected_move_changes_nothing_witness:
  "wf_game init_game \<and> \<not> preconditions init_game (-1) 27 \<and>
   make_move init_game (-1) 27 = Some (False, init_game)"
proof -
  have h: "\<not> preconditions init_game (-1) 27"
    by (simp add: preconditions_def precondition_2_def)
  show ?thesis
    using wf_init_game h rejected_move_changes_nothing [OF wf_init_game h] by simp
qed

subsection \<open>Placing the mark\<close>

lemma set4_in_range:
  assumes "grid_dims n m g" "\<forall>r \<in> set g. \<forall>b \<in> set r. grid_dims 3 3 b"
    and "0 \<le> i" "i < int n" "0 \<le> j" "j < int m" "0 \<le> k" "k < 3" "0 \<le> l" "l < 3"
  shows "set4 g i j k l v =
         Some (g[nat i := (g ! nat i)[nat j :=
                 (g ! nat i ! nat j)[nat k := (g ! nat i ! nat j ! nat k)[nat l := v]]]])"
proof -
  from assms have sub: "grid_dims 3 3 (g ! nat i ! nat j)"
    by (intro sub_grid_dims [where n = n and m = m]) simp_all
  from assms have len: "length g = n" "length (g ! nat i) = m"
    by (simp_all add: grid_dims_def)
  from assms have "get2 g i j = Some (g ! nat i ! nat j)"
    by (intro get2_in_range [where n = n and m = m]) simp_all
  moreover from assms have "set2 (g ! nat i ! nat j) k l v =
      Some ((g ! nat i ! nat j)[nat k := (g ! nat i ! nat j ! nat k)[nat l := v]])"
    by (intro set2_in_range [OF sub]) simp_all
  ultimately show ?thesis using assms len
    by (simp add: set4_def py_get_in_range py_set_in_range)
qed

lemma set4_dims:
  assumes "set4 g i j k l v = Some g'" "grid_dims n m g"
    and "\<forall>r \<in> set g. \<forall>b \<in> set r. grid_dims 3 3 b"
  shows "grid_dims n m g' \<and> (\<forall>r \<in> set g'. \<forall>b \<in> set r. grid_dims 3 3 b)"
proof -
  from assms(1) obtain b b' r r' where b: "get2 g i j = Some b" and b': "set2 b k l v = Some b'"
    and r: "py_get g i = Some r" and r': "py_set r j b' = Some r'" and g': "py_set g i r' = Some g'"
    by (auto simp: set4_def split: bind_splits)
  from b have "\<exists>q \<in> set g. b \<in> set q"
    by (auto simp: get2_def split: bind_splits dest: py_get_mem)
  with assms(3) have "grid_dims 3 3 b" by blast
  with b' have db': "grid_dims 3 3 b'" by (rule set2_dims)
  from r have rin: "r \<in> set g" by (rule py_get_mem)
  with assms(2) have lr: "length r = m" by (simp add: grid_dims_def)
  with r' have lr': "length r' = m" by (simp add: py_set_length)
  from r' have sr': "set r' \<subseteq> insert b' (set r)" by (rule py_set_subset)
  from g' have sg': "set g' \<subseteq> insert r' (set g)" by (rule py_set_subset)
  from g' assms(2) have "length g' = n" by (simp add: py_set_length grid_dims_def)
  moreover from sg' lr' assms(2) have "\<forall>q \<in> set g'. length q = m"
    by (auto simp: grid_dims_def)
  moreover have "\<forall>q \<in> set g'. \<forall>c \<in> set q. grid_dims 3 3 c"
  proof (intro ballI)
    fix q c assume q: "q \<in> set g'" and c: "c \<in> set q"
    from q sg' have "q = r' \<or> q \<in> set g" by auto
    then show "grid_dims 3 3 c"
    proof
      assume "q = r'"
      with c sr' have "c = b' \<or> c \<in> set r" by auto
      with db' rin assms(3) show ?thesis by auto
    next
      assume "q \<in> set g"
      with c assms(3) show ?thesis by auto
    qed
  qed
  ultimately show ?thesis by (simp add: grid_dims_def)
qed

lemma place_mark_wf:
  assumes "place_mark s row col = Some s1" "wf_game s"
  shows "wf_game s1"
proof -
  from assms(1) obtain b bs where b: "set2 (board s) row col (current_player s) = Some b"
    and bs: "set4 (blocks_state_3x3 s) (row div 3) (col div 3) (row mod 3) (col mod 3)
               (current_player s) = Some bs"
    and s1: "s1 = s\<lparr>board := b, blocks_state_3x3 := bs\<rparr>"
    by (auto simp: place_mark_def split: bind_splits)
  from assms(2) have "grid_dims 27 27 (board s)" by (simp add: wf_game_def)
  with b have "grid_dims 27 27 b" by (rule set2_dims)
  moreover from assms(2) set4_dims [OF bs, of 9 9]
  have "grid_dims 9 9 bs \<and> (\<forall>r \<in> set bs. \<forall>c \<in> set r. grid_dims 3 3 c)"
    by (simp add: wf_game_def)
  ultimately show ?thesis using assms(2) by (simp add: wf_game_def s1)
qed

lemma place_mark_in_range:
  assumes "wf_game s" "0 \<le> row" "row < 27" "0 \<le> col" "col < 27"
  shows "place_mark s row col =
     Some (s\<lparr>board := (board s)[nat row := (board s ! nat row)[nat col := current_player s]],
             blocks_state_3x3 :=
               (blocks_state_3x3 s)[nat (row div 3) := (blocks_state_3x3 s ! nat (row div 3))
                 [nat (col div 3) := (blocks_state_3x3 s ! nat (row div 3) ! nat (col div 3))
                   [nat (row mod 3) :=
                      (blocks_state_3x3 s ! nat (row div 3) ! nat (col div 3) ! nat (row mod 3))
                        [nat (col mod 3) := current_player s]]]]\<rparr>)"
proof -
  from assms(1) have b: "grid_dims 27 27 (board s)" and d: "grid_dims 9 9 (blocks_state_3x3 s)"
    and e: "\<forall>r \<in> set (blocks_state_3x3 s). \<forall>b \<in> set r. grid_dims 3 3 b"
    by (simp_all add: wf_game_def)
  from assms have 1: "set2 (board s) row col (current_player s) =
      Some ((board s)[nat row := (board s ! nat row)[nat col := current_player s]])"
    by (intro set2_in_range [OF b]) simp_all
  from assms have 2: "set4 (blocks_state_3x3 s) (row div 3) (col div 3) (row mod 3) (col mod 3)
      (current_player s) = Some ((blocks_state_3x3 s)[nat (row div 3) := (blocks_state_3x3 s ! nat (row div 3))
                 [nat (col div 3) := (blocks_state_3x3 s ! nat (row div 3) ! nat (col div 3))
                   [nat (row mod 3) :=
                      (blocks_state_3x3 s ! nat (row div 3) ! nat (col div 3) ! nat (row mod 3))
                        [nat (col mod 3) := current_player s]]]])"
    by (intro set4_in_range [OF d e]) auto
  show ?thesis by (simp add: place_mark_def 1 2)
qed

subsection \<open>The branches of \<open>make_move\<close>\<close>

lemma make_move_true:
  assumes "make_move s row col = Some (True, s')"
  shows "status s = ''playing'' \<and> 0 \<le> row \<and> row < 27 \<and> 0 \<le> col \<and> col < 27 \<and>
         apply_move s row col = Some (True, s')"
  using assms by (auto simp: make_move_def split: if_splits bind_splits)

lemma make_move_false:
  assumes "make_move s row col = Some (b, s')"
  shows "(\<not> b \<and> s' = s) \<or> (status s = ''playing'' \<and> 0 \<le> row \<and> row < 27 \<and> 0 \<le> col \<and> col < 27 \<and>
         apply_move s row col = Some (b, s'))"
  using assms by (auto simp: make_move_def split: if_splits bind_splits)

lemma apply_move_cases:
  assumes "apply_move s row col = Some (b, s')"
  obtains (no_win) s1 where "place_mark s row col = Some s1"
      "check_block_3x3_win s1 (row div 3) (col div 3) = Some False"
      "no_win_branch s1 row col = Some (b, s')"
  | (win) s1 where "place_mark s row col = Some s1"
      "check_block_3x3_win s1 (row div 3) (col div 3) = Some True"
      "win_branch s1 row col = Some (b, s')"
  using assms by (auto simp: apply_move_def split: bind_splits if_splits)

lemma win_branch_cases:
  assumes "win_branch s row col = Some (b, s')"
  obtains (game) b3 bs9 b9 where
      "set2 (blocks_3x3 s) (row div 3) (col div 3) (current_player s) = Some b3"
      "set4 (blocks_state_9x9 s) (row div 9) (col div 9) ((row div 3) mod 3) ((col div 3) mod 3)
         (current_player s) = Some bs9"
      "set2 (blocks_9x9 s) (row div 9) (col div 9) (current_player s) = Some b9"
      "b" "s' = s\<lparr>blocks_3x3 := b3, blocks_state_9x9 := bs9, blocks_9x9 := b9,
                  status := current_player s @ ''_wins''\<rparr>"
  | (macro) b3 bs9 b9 where
      "set2 (blocks_3x3 s) (row div 3) (col div 3) (current_player s) = Some b3"
      "set4 (blocks_state_9x9 s) (row div 9) (col div 9) ((row div 3) mod 3) ((col div 3) mod 3)
         (current_player s) = Some bs9"
      "set2 (blocks_9x9 s) (row div 9) (col div 9) (current_player s) = Some b9"
      "redirect_after_win (s\<lparr>blocks_3x3 := b3, blocks_state_9x9 := bs9, blocks_9x9 := b9\<rparr>)
         row col = Some (b, s')"
  | (micro) b3 bs9 where
      "set2 (blocks_3x3 s) (row div 3) (col div 3) (current_player s) = Some b3"
      "set4 (blocks_state_9x9 s) (row div 9) (col div 9) ((row div 3) mod 3) ((col div 3) mod 3)
         (current_player s) = Some bs9"
      "redirect_after_win (s\<lparr>blocks_3x3 := b3, blocks_state_9x9 := bs9\<rparr>) row col = Some (b, s')"
  using assms by (auto simp: win_branch_def Let_def split: bind_splits if_splits)

lemma target_3x3_result:
  assumes "target_3x3 s a b c d = Some t" "0 \<le> a * 3 + c" "0 \<le> b * 3 + d"
  shows "t = (if blocks_3x3 s ! nat (a * 3 + c) ! nat (b * 3 + d) \<noteq> '''' then PyNone
              else PyTuple c d)"
  using assms by (auto simp: target_3x3_def split: bind_splits dest: get2_nonneg)

lemma no_win_branch_result:
  assumes "no_win_branch s row col = Some (b, s')" "0 \<le> row" "0 \<le> col"
  shows "b \<and> s' = switch_player (s\<lparr>active_9x9_block := PyTuple (row div 9) (col div 9),
            active_3x3_block :=
              (if blocks_3x3 s ! nat (row div 9 * 3 + row mod 3) ! nat (col div 9 * 3 + col mod 3) \<noteq> ''''
               then PyNone else PyTuple (row mod 3) (col mod 3))\<rparr>)"
proof -
  from assms(1) obtain t where t: "target_3x3 s (row div 9) (col div 9) (row mod 3) (col mod 3) = Some t"
    and r: "b" "s' = switch_player (s\<lparr>active_9x9_block := PyTuple (row div 9) (col div 9),
            active_3x3_block := t\<rparr>)"
    by (auto simp: no_win_branch_def split: bind_splits)
  from assms(2,3) have "0 \<le> row div 9 * 3 + row mod 3" "0 \<le> col div 9 * 3 + col mod 3"
    by (simp_all add: pos_imp_zdiv_nonneg_iff)
  from target_3x3_result [OF t this] r show ?thesis by simp
qed

lemma redirect_after_win_result:
  assumes "redirect_after_win s row col = Some (b, s')" "0 \<le> row" "0 \<le> col"
  shows "b \<and> s' = switch_player
          (if blocks_9x9 s ! nat ((row div 3) mod 3) ! nat ((col div 3) mod 3) \<noteq> ''''
           then s\<lparr>active_9x9_block := PyNone, active_3x3_block := PyNone\<rparr>
           else s\<lparr>active_9x9_block := PyTuple ((row div 3) mod 3) ((col div 3) mod 3),
                  active_3x3_block :=
                    (if blocks_3x3 s ! nat ((row div 3) mod 3 * 3 + row mod 3)
                          ! nat ((col div 3) mod 3 * 3 + col mod 3) \<noteq> ''''
                     then PyNone else PyTuple (row mod 3) (col mod 3))\<rparr>)"
proof -
  from assms(1) obtain w where w: "get2 (blocks_9x9 s) ((row div 3) mod 3) ((col div 3) mod 3) = Some w"
    by (auto simp: redirect_after_win_def Let_def split: bind_splits)
  from get2_nonneg [OF w] have w': "w = blocks_9x9 s ! nat ((row div 3) mod 3) ! nat ((col div 3) mod 3)"
    by simp
  show ?thesis
  proof (cases "w \<noteq> ''''")
    case True
    with assms(1) w w' show ?thesis by (auto simp: redirect_after_win_def Let_def)
  next
    case False
    with assms(1) w obtain t where
      t: "target_3x3 s ((row div 3) mod 3) ((col div 3) mod 3) (row mod 3) (col mod 3) = Some t"
      and r: "b" "s' = switch_player (s\<lparr>active_9x9_block := PyTuple ((row div 3) mod 3) ((col div 3) mod 3),
                       active_3x3_block := t\<rparr>)"
      by (auto simp: redirect_after_win_def Let_def split: bind_splits)
    have "0 \<le> (row div 3) mod 3 * 3 + row mod 3" "0 \<le> (col div 3) mod 3 * 3 + col mod 3"
      by simp_all
    from target_3x3_result [OF t this] r False w' show ?thesis by simp
  qed
qed

subsection \<open>The selectors and the player after a move\<close>

lemma switch_player_fields [simp]:
  "board (switch_player s) = board s" "blocks_3x3 (switch_player s) = blocks_3x3 s"
  "blocks_9x9 (switch_player s) = blocks_9x9 s"
  "blocks_state_3x3 (switch_player s) = blocks_state_3x3 s"
  "blocks_state_9x9 (switch_player s) = blocks_state_9x9 s"
  "status (switch_player s) = status s"
  "active_9x9_block (switch_player s) = active_9x9_block s"
  "active_3x3_block (switch_player s) = active_3x3_block s"
  "current_player (switch_player s) = opposite (current_player s)"
  by (simp_all add: switch_player_def opposite_def)

lemma accepted_result:
  "map_option fst (make_move s row col) = Some True \<Longrightarrow>
     make_move s row col = Some (True, moved s row col)"
  by (cases "make_move s row col") (auto simp: moved_def)

text \<open>
  Claim C5. When \<open>make_move(row, col)\<close> succeeds, wins the move's 3x3 block and does not end
  the game: if the 9x9 block at the won 3x3 block's local position has a winner, both
  selectors become \<open>None\<close>; otherwise \<open>active_9x9_block\<close> becomes that position and
  \<open>active_3x3_block\<close> becomes \<open>(row % 3, col % 3)\<close>, unless the 3x3 block at that local
  position of the selected 9x9 block has a winner, in which case it becomes \<open>None\<close>.
  The winners are those on record when the selectors are computed, that is, in the
  object after the call: they include the winners that this very move has recorded.
\<close>

theorem selectors_after_block_win:
  assumes "make_move s row col = Some (True, s')"
    and "wins_3x3_block s row col" and "status s' = ''playing''"
  shows "(if blocks_9x9 s' ! nat ((row div 3) mod 3) ! nat ((col div 3) mod 3) \<noteq> ''''
          then active_9x9_block s' = PyNone \<and> active_3x3_block s' = PyNone
          else active_9x9_block s' = PyTuple ((row div 3) mod 3) ((col div 3) mod 3) \<and>
               active_3x3_block s' =
                 (if blocks_3x3 s' ! nat ((row div 3) mod 3 * 3 + row mod 3)
                       ! nat ((col div 3) mod 3 * 3 + col mod 3) \<noteq> ''''
                  then PyNone else PyTuple (row mod 3) (col mod 3)))"
proof -
  from make_move_true [OF assms(1)] have r: "0 \<le> row" "0 \<le> col"
    and a: "apply_move s row col = Some (True, s')" by simp_all
  from a assms(2) obtain s1 where w: "win_branch s1 row col = Some (True, s')"
    by (cases rule: apply_move_cases) (auto simp: wins_3x3_block_def)
  from w show ?thesis
  proof (cases rule: win_branch_cases)
    case (game b3 bs9 b9)
    with assms(3) wins_not_playing show ?thesis by simp
  next
    case (macro b3 bs9 b9)
    from redirect_after_win_result [OF macro(4) r] show ?thesis by (simp split: if_splits)
  next
    case (micro b3 bs9)
    from redirect_after_win_result [OF micro(3) r] show ?thesis by (simp split: if_splits)
  qed
qed

theorem selectors_after_block_win_witness:
  "make_move (game_after (take 4 opening_25)) 0 3 =
     Some (True, moved (game_after (take 4 opening_25)) 0 3) \<and>
   wins_3x3_block (game_after (take 4 opening_25)) 0 3 \<and>
   status (moved (game_after (take 4 opening_25)) 0 3) = ''playing'' \<and>
   active_9x9_block (moved (game_after (take 4 opening_25)) 0 3) = PyTuple 0 1 \<and>
   active_3x3_block (moved (game_after (take 4 opening_25)) 0 3) = PyTuple 0 0"
proof -
  have "map_option fst (make_move (game_after (take 4 opening_25)) 0 3) = Some True"
    by code_simp
  then have h1: "make_move (game_after (take 4 opening_25)) 0 3 =
      Some (True, moved (game_after (take 4 opening_25)) 0 3)"
    by (rule accepted_result)
  have h2: "wins_3x3_block (game_after (take 4 opening_25)) 0 3" by code_simp
  have h3: "status (moved (game_after (take 4 opening_25)) 0 3) = ''playing''" by code_simp
  have e: "blocks_9x9 (moved (game_after (take 4 opening_25)) 0 3) ! nat 0 ! nat 1 = ''''"
    "blocks_3x3 (moved (game_after (take 4 opening_25)) 0 3) ! nat 0 ! nat 3 = ''''"
    by code_simp+
  from selectors_after_block_win [OF h1 h2 h3] e h1 h2 h3 show ?thesis by simp
qed

text \<open>
  Claim C6. When \<open>make_move(row, col)\<close> succeeds without winning the move's 3x3 block,
  \<open>active_9x9_block\<close> becomes the move's 9x9 block \<open>(row // 9, col // 9)\<close> and
  \<open>active_3x3_block\<close> becomes \<open>(row % 3, col % 3)\<close>, unless the 3x3 block at that local
  position of that 9x9 block has a winner, in which case it becomes \<open>None\<close>.
\<close>

theorem selectors_after_plain_move:
  assumes "make_move s row col = Some (True, s')" and "\<not> wins_3x3_block s row col"
  shows "active_9x9_block s' = PyTuple (row div 9) (col div 9) \<and>
         active_3x3_block s' =
           (if blocks_3x3 s' ! nat (row div 9 * 3 + row mod 3) ! nat (col div 9 * 3 + col mod 3) \<noteq> ''''
            then PyNone else PyTuple (row mod 3) (col mod 3))"
proof -
  from make_move_true [OF assms(1)] have r: "0 \<le> row" "0 \<le> col"
    and a: "apply_move s row col = Some (True, s')" by simp_all
  from a assms(2) obtain s1 where w: "no_win_branch s1 row col = Some (True, s')"
    by (cases rule: apply_move_cases) (auto simp: wins_3x3_block_def)
  from no_win_branch_result [OF w r] show ?thesis by simp
qed

theorem selectors_after_plain_move_witness:
  "make_move init_game 13 7 = Some (True, moved init_game 13 7) \<and>
   \<not> wins_3x3_block init_game 13 7 \<and>
   active_9x9_block (moved init_game 13 7) = PyTuple 1 0 \<and>
   active_3x3_block (moved init_game 13 7) = PyTuple 1 1"
proof -
  have "map_option fst (make_move init_game 13 7) = Some True" by code_simp
  then have h1: "make_move init_game 13 7 = Some (True, moved init_game 13 7)"
    by (rule accepted_result)
  have h2: "\<not> wins_3x3_block init_game 13 7" by code_simp
  have e: "blocks_3x3 (moved init_game 13 7) ! nat 4 ! nat 1 = ''''" by code_simp
  from selectors_after_plain_move [OF h1 h2] e h1 h2 show ?thesis by simp
qed

lemma apply_move_player:
  assumes "apply_move s row col = Some (b, s')" "0 \<le> row" "0 \<le> col"
  shows "b \<and> (status s' = status s \<and> current_player s' = opposite (current_player s) \<or>
              status s' = current_player s @ ''_wins'' \<and> current_player s' = current_player s)"
  using assms(1)
proof (cases rule: apply_move_cases)
  case (no_win s1)
  from no_win(1) have "status s1 = status s" "current_player s1 = current_player s"
    by (auto simp: place_mark_def split: bind_splits)
  with no_win_branch_result [OF no_win(3) assms(2,3)] show ?thesis by simp
next
  case (win s1)
  from win(1) have s1: "status s1 = status s" "current_player s1 = current_player s"
    by (auto simp: place_mark_def split: bind_splits)
  from win(3) show ?thesis
  proof (cases rule: win_branch_cases)
    case (game b3 bs9 b9)
    with s1 show ?thesis by simp
  next
    case (macro b3 bs9 b9)
    from redirect_after_win_result [OF macro(4) assms(2,3)] s1 show ?thesis
      by (simp split: if_splits)
  next
    case (micro b3 bs9)
    from redirect_after_win_result [OF micro(3) assms(2,3)] s1 show ?thesis
      by (simp split: if_splits)
  qed
qed

text \<open>
  Claim C2, as the code has it. A call of \<open>make_move\<close> that returns true and leaves the
  game in play hands the turn to the other player; a call that returns true and ends
  the game leaves \<open>current_player\<close> as it was (it names the winner); a call that
  returns false leaves \<open>current_player\<close> as it was.
\<close>

theorem player_alternates_unless_game_won:
  assumes "make_move s row col = Some (b, s')"
  shows "(b \<and> status s' = ''playing'' \<longrightarrow> current_player s' = opposite (current_player s)) \<and>
         (b \<and> status s' \<noteq> ''playing'' \<longrightarrow> current_player s' = current_player s) \<and>
         (\<not> b \<longrightarrow> current_player s' = current_player s)"
proof -
  from make_move_false [OF assms] show ?thesis
  proof
    assume "\<not> b \<and> s' = s" then show ?thesis by simp
  next
    assume h: "status s = ''playing'' \<and> 0 \<le> row \<and> row < 27 \<and> 0 \<le> col \<and> col < 27 \<and>
         apply_move s row col = Some (b, s')"
    with apply_move_player [of s row col b s'] wins_not_playing [of "current_player s"]
    show ?thesis by auto
  qed
qed

theorem player_alternates_unless_game_won_witness:
  "make_move init_game 13 7 = Some (True, moved init_game 13 7) \<and>
   status (moved init_game 13 7) = ''playing'' \<and>
   current_player init_game = ''X'' \<and> current_player (moved init_game 13 7) = ''O''"
proof -
  have "map_option fst (make_move init_game 13 7) = Some True" by code_simp
  then have h1: "make_move init_game 13 7 = Some (True, moved init_game 13 7)"
    by (rule accepted_result)
  have h3: "status (moved init_game 13 7) = ''playing''" by code_simp
  have x: "current_player init_game = ''X''" by (simp add: init_game_def)
  from player_alternates_unless_game_won [OF h1] h1 h3 x show ?thesis
    by (simp add: opposite_def)
qed

text \<open>
  Claim C2 as stated fails on the move that wins the game: after the 52 moves of
  \<open>full_game_52\<close> it is X's turn, \<open>make_move(1, 26)\<close> returns true and sets the status to
  \<open>"X_wins"\<close>, and \<open>current_player\<close> is still X.
\<close>

theorem winning_move_keeps_player:
  "player_report full_game_52 1 26 = Some (''X'', True, ''X'', ''X_wins'')"
  by code_simp

subsection \<open>Moves inside a 9x9 block that is already won\<close>

lemma play_reachable: "reachable s \<Longrightarrow> play s ms = Some s' \<Longrightarrow> reachable s'"
proof (induction ms arbitrary: s)
  case Nil
  then show ?case by simp
next
  case (Cons m ms)
  from Cons.prems(2) obtain b s1 where m: "make_move s (fst m) (snd m) = Some (b, s1)"
    and r: "play s1 ms = Some s'"
    by (auto split: bind_splits)
  from Cons.prems(1) m have "reachable s1" by (rule reachable.move)
  then show ?case using r by (rule Cons.IH)
qed

lemma reachable_game_after: "play init_game ms \<noteq> None \<Longrightarrow> reachable (game_after ms)"
  using play_reachable [OF reachable.fresh, of ms] by (auto simp: game_after_def)

text \<open>
  Claim C1 fails on the code. After the 25 moves of \<open>opening_25\<close>, each of them accepted
  and listed, X has won the 9x9 block (0,0), both selectors are \<open>None\<close> and the game is in
  play: \<open>make_move(3, 0)\<close>, an empty cell of an open 3x3 block inside that won 9x9 block,
  returns true, while \<open>get_valid_moves()\<close> does not list \<open>(3, 0)\<close>.
\<close>

theorem accepted_move_not_listed:
  "move_report opening_25 3 0 = Some (''playing'', True, False) \<and>
   reachable (game_after opening_25)"
proof -
  have r: "move_report opening_25 3 0 = Some (''playing'', True, False)" by code_simp
  then have "play init_game opening_25 \<noteq> None"
    by (auto simp: move_report_def split: bind_splits)
  with r show ?thesis by (simp add: reachable_game_after)
qed

text \<open>
  Claim C3 fails on the code for \<open>blocks_9x9\<close>. After \<open>opening_25\<close> and the 18 moves of
  \<open>middle_18\<close> the entry \<open>blocks_9x9[0][0]\<close> is \<open>"X"\<close>; the next move \<open>make_move(3, 8)\<close>, by O,
  returns true and overwrites it with \<open>"O"\<close>.
\<close>

theorem winner_9x9_overwritten:
  "winner_report (opening_25 @ middle_18) 3 8 0 0 = Some (''X'', True, ''O'')"
  by code_simp

subsection \<open>Well-formedness is kept, and no call raises\<close>

lemma wf_game_frame:
  assumes "wf_game s" "board s' = board s" "blocks_3x3 s' = blocks_3x3 s"
    "blocks_9x9 s' = blocks_9x9 s" "blocks_state_3x3 s' = blocks_state_3x3 s"
    "blocks_state_9x9 s' = blocks_state_9x9 s"
  shows "wf_game s'"
  using assms by (simp add: wf_game_def)

lemma no_win_branch_wf:
  assumes "no_win_branch s row col = Some (b, s')" "wf_game s"
  shows "wf_game s'"
  using assms by (auto simp: no_win_branch_def wf_game_def split: bind_splits)

lemma redirect_after_win_wf:
  assumes "redirect_after_win s row col = Some (b, s')" "wf_game s"
  shows "wf_game s'"
  using assms
  by (auto simp: redirect_after_win_def Let_def wf_game_def split: bind_splits if_splits)

lemma win_branch_wf:
  assumes "win_branch s row col = Some (b, s')" "wf_game s"
  shows "wf_game s'"
  using assms(1)
proof (cases rule: win_branch_cases)
  case (game b3 bs9 b9)
  from assms(2) set2_dims [OF game(1), of 9 9] set2_dims [OF game(3), of 3 3]
    set4_dims [OF game(2), of 3 3] game(5)
  show ?thesis by (simp add: wf_game_def)
next
  case (macro b3 bs9 b9)
  from assms(2) set2_dims [OF macro(1), of 9 9] set2_dims [OF macro(3), of 3 3]
    set4_dims [OF macro(2), of 3 3]
  have "wf_game (s\<lparr>blocks_3x3 := b3, blocks_state_9x9 := bs9, blocks_9x9 := b9\<rparr>)"
    by (simp add: wf_game_def)
  with macro(4) show ?thesis by (rule redirect_after_win_wf)
next
  case (micro b3 bs9)
  from assms(2) set2_dims [OF micro(1), of 9 9] set4_dims [OF micro(2), of 3 3]
  have "wf_game (s\<lparr>blocks_3x3 := b3, blocks_state_9x9 := bs9\<rparr>)"
    by (simp add: wf_game_def)
  with micro(3) show ?thesis by (rule redirect_after_win_wf)
qed

lemma make_move_wf:
  assumes "make_move s row col = Some (b, s')" "wf_game s"
  shows "wf_game s'"
proof -
  from make_move_false [OF assms(1)] show ?thesis
  proof
    assume "\<not> b \<and> s' = s" with assms(2) show ?thesis by simp
  next
    assume "status s = ''playing'' \<and> 0 \<le> row \<and> row < 27 \<and> 0 \<le> col \<and> col < 27 \<and>
         apply_move s row col = Some (b, s')"
    then have "apply_move s row col = Some (b, s')" by simp
    then show ?thesis
    proof (cases rule: apply_move_cases)
      case (no_win s1)
      from no_win(1) assms(2) have "wf_game s1" by (rule place_mark_wf)
      with no_win(3) show ?thesis by (rule no_win_branch_wf)
    next
      case (win s1)
      from win(1) assms(2) have "wf_game s1" by (rule place_mark_wf)
      with win(3) show ?thesis by (rule win_branch_wf)
    qed
  qed
qed

lemma make_move_grids:
  assumes "make_move s row col = Some (b, s')"
  shows "s' = s \<or> (0 \<le> row \<and> row < 27 \<and> 0 \<le> col \<and> col < 27 \<and>
           (\<exists>s1. place_mark s row col = Some s1 \<and> board s' = board s1 \<and>
                 blocks_state_3x3 s' = blocks_state_3x3 s1))"
proof -
  from make_move_false [OF assms(1)] show ?thesis
  proof
    assume "\<not> b \<and> s' = s" then show ?thesis by simp
  next
    assume h: "status s = ''playing'' \<and> 0 \<le> row \<and> row < 27 \<and> 0 \<le> col \<and> col < 27 \<and>
         apply_move s row col = Some (b, s')"
    then have r: "0 \<le> row" "0 \<le> col" and a: "apply_move s row col = Some (b, s')" by simp_all
    from a have "\<exists>s1. place_mark s row col = Some s1 \<and> board s' = board s1 \<and>
                 blocks_state_3x3 s' = blocks_state_3x3 s1"
    proof (cases rule: apply_move_cases)
      case (no_win s1)
      from no_win_branch_result [OF no_win(3) r] no_win(1) show ?thesis by simp
    next
      case (win s1)
      from win(3) have "board s' = board s1 \<and> blocks_state_3x3 s' = blocks_state_3x3 s1"
      proof (cases rule: win_branch_cases)
        case (game b3 bs9 b9)
        then show ?thesis by simp
      next
        case (macro b3 bs9 b9)
        from redirect_after_win_result [OF macro(4) r] show ?thesis by (simp split: if_splits)
      next
        case (micro b3 bs9)
        from redirect_after_win_result [OF micro(3) r] show ?thesis by (simp split: if_splits)
      qed
      with win(1) show ?thesis by simp
    qed
    with h show ?thesis by simp
  qed
qed

lemma target_3x3_total:
  assumes "wf_game s" "0 \<le> a" "a < 3" "0 \<le> b" "b < 3" "0 \<le> c" "c < 3" "0 \<le> d" "d < 3"
  shows "\<exists>t. target_3x3 s a b c d = Some t"
proof -
  from assms(1) have g: "grid_dims 9 9 (blocks_3x3 s)" by (simp add: wf_game_def)
  from assms have "get2 (blocks_3x3 s) (a * 3 + c) (b * 3 + d) =
      Some (blocks_3x3 s ! nat (a * 3 + c) ! nat (b * 3 + d))"
    by (intro get2_in_range [OF g]) auto
  then show ?thesis by (simp add: target_3x3_def)
qed

lemma no_win_branch_total:
  assumes "wf_game s" "0 \<le> row" "row < 27" "0 \<le> col" "col < 27"
  shows "\<exists>s'. no_win_branch s row col = Some (True, s')"
proof -
  from assms have "\<exists>t. target_3x3 s (row div 9) (col div 9) (row mod 3) (col mod 3) = Some t"
    by (intro target_3x3_total) auto
  then show ?thesis by (auto simp: no_win_branch_def)
qed

lemma redirect_after_win_total:
  assumes "wf_game s"
  shows "\<exists>s'. redirect_after_win s row col = Some (True, s')"
proof -
  from assms have g: "grid_dims 3 3 (blocks_9x9 s)" by (simp add: wf_game_def)
  have w: "get2 (blocks_9x9 s) ((row div 3) mod 3) ((col div 3) mod 3) =
      Some (blocks_9x9 s ! nat ((row div 3) mod 3) ! nat ((col div 3) mod 3))"
    by (intro get2_in_range [OF g]) auto
  from assms have "\<exists>t. target_3x3 s ((row div 3) mod 3) ((col div 3) mod 3) (row mod 3) (col mod 3)
      = Some t"
    by (intro target_3x3_total) auto
  with w show ?thesis by (auto simp: redirect_after_win_def Let_def)
qed

lemma win_branch_total:
  assumes "wf_game s" "0 \<le> row" "row < 27" "0 \<le> col" "col < 27"
  shows "\<exists>s'. win_branch s row col = Some (True, s')"
proof -
  from assms(1) have g3: "grid_dims 9 9 (blocks_3x3 s)" and g9: "grid_dims 3 3 (blocks_9x9 s)"
    and d9: "grid_dims 3 3 (blocks_state_9x9 s)"
    and e9: "\<forall>r \<in> set (blocks_state_9x9 s). \<forall>b \<in> set r. grid_dims 3 3 b"
    by (simp_all add: wf_game_def)
  from assms obtain b3 where b3: "set2 (blocks_3x3 s) (row div 3) (col div 3) (current_player s) = Some b3"
    using set2_in_range [OF g3, of "row div 3" "col div 3"] by auto
  from assms obtain bs9 where bs9: "set4 (blocks_state_9x9 s) (row div 9) (col div 9)
      ((row div 3) mod 3) ((col div 3) mod 3) (current_player s) = Some bs9"
    using set4_in_range [OF d9 e9, of "row div 9" "col div 9" "(row div 3) mod 3" "(col div 3) mod 3"]
    by auto
  define s2 where "s2 = s\<lparr>blocks_3x3 := b3, blocks_state_9x9 := bs9\<rparr>"
  from assms(1) set2_dims [OF b3, of 9 9] set4_dims [OF bs9, of 3 3]
  have wf2: "wf_game s2" by (simp add: wf_game_def s2_def)
  from assms win_checks_wf [OF wf2, of 0 0 "row div 9" "col div 9"]
  obtain w9 where w9: "check_block_9x9_win s2 (row div 9) (col div 9) = Some w9" by auto
  show ?thesis
  proof (cases w9)
    case False
    with b3 bs9 w9 redirect_after_win_total [OF wf2, of row col] show ?thesis
      by (auto simp: win_branch_def s2_def)
  next
    case True
    from wf2 have "grid_dims 3 3 (blocks_9x9 s2)" by (simp add: wf_game_def)
    with assms obtain b9 where b9: "set2 (blocks_9x9 s2) (row div 9) (col div 9) (current_player s2) = Some b9"
      using set2_in_range [of 3 3 "blocks_9x9 s2" "row div 9" "col div 9"] by auto
    define s3 where "s3 = s2\<lparr>blocks_9x9 := b9\<rparr>"
    from wf2 set2_dims [OF b9, of 3 3] have wf3: "wf_game s3" by (simp add: wf_game_def s3_def)
    from win_checks_wf [OF wf3, of 0 0 0 0] obtain gw where gw: "check_game_win s3 = Some gw"
      by auto
    from True b3 bs9 w9 b9 gw redirect_after_win_total [OF wf3, of row col] show ?thesis
      by (cases gw) (auto simp: win_branch_def s2_def s3_def)
  qed
qed

lemma apply_move_total:
  assumes "wf_game s" "0 \<le> row" "row < 27" "0 \<le> col" "col < 27"
  shows "\<exists>s'. apply_move s row col = Some (True, s')"
proof -
  from place_mark_in_range [OF assms] obtain s1 where s1: "place_mark s row col = Some s1" by blast
  from s1 assms(1) have wf1: "wf_game s1" by (rule place_mark_wf)
  from assms win_checks_wf [OF wf1, of "row div 3" "col div 3" 0 0]
  obtain w where w: "check_block_3x3_win s1 (row div 3) (col div 3) = Some w" by auto
  from s1 w no_win_branch_total [OF wf1 assms(2-5)] win_branch_total [OF wf1 assms(2-5)]
  show ?thesis by (cases w) (auto simp: apply_move_def)
qed

lemma make_move_total:
  assumes "wf_game s"
  shows "\<exists>s'. make_move s row col = Some (preconditions s row col, s')"
proof (cases "preconditions s row col")
  case False
  with make_move_rejects [OF assms] show ?thesis by auto
next
  case True
  then have "0 \<le> row" "row < 27" "0 \<le> col" "col < 27"
    by (simp_all add: preconditions_def precondition_2_def)
  from apply_move_total [OF assms this] make_move_accepts [OF assms True] True
  show ?thesis by auto
qed

subsection \<open>The board and its copy in the sub-grids\<close>

lemma split3: "(r::nat) = 3 * (r div 3) + r mod 3"
  by simp

lemma same_cell: "(r::nat) div 3 = i div 3 \<Longrightarrow> r mod 3 = i mod 3 \<Longrightarrow> r = i"
  by (metis split3)

lemma place_mark_mirrors:
  assumes "wf_game s" "mirrors s" "0 \<le> row" "row < 27" "0 \<le> col" "col < 27"
    and "place_mark s row col = Some s1"
  shows "mirrors s1"
proof -
  define i j where "i = nat row" and "j = nat col"
  from assms have ij: "i < 27" "j < 27" by (simp_all add: i_def j_def)
  from assms have n: "nat (row div 3) = i div 3" "nat (col div 3) = j div 3"
    "nat (row mod 3) = i mod 3" "nat (col mod 3) = j mod 3"
    by (simp_all add: i_def j_def nat_div_distrib nat_mod_distrib)
  from assms(1) have b: "grid_dims 27 27 (board s)" and d: "grid_dims 9 9 (blocks_state_3x3 s)"
    and e: "\<forall>r \<in> set (blocks_state_3x3 s). \<forall>b \<in> set r. grid_dims 3 3 b"
    by (simp_all add: wf_game_def)
  from place_mark_in_range [OF assms(1,3-6)] assms(7)
  have s1: "board s1 = (board s)[i := (board s ! i)[j := current_player s]]"
    "blocks_state_3x3 s1 = (blocks_state_3x3 s)[i div 3 := (blocks_state_3x3 s ! (i div 3))
       [j div 3 := (blocks_state_3x3 s ! (i div 3) ! (j div 3))
         [i mod 3 := (blocks_state_3x3 s ! (i div 3) ! (j div 3) ! (i mod 3))
            [j mod 3 := current_player s]]]]"
    by (auto simp: n i_def [symmetric] j_def [symmetric])
  show ?thesis unfolding mirrors_def
  proof (intro allI impI)
    fix r c :: nat assume rc: "r < 27" "c < 27"
    from b rc have lb: "length (board s) = 27" "length (board s ! r) = 27"
      by (simp_all add: grid_dims_def)
    from d rc have ld: "length (blocks_state_3x3 s) = 9" "length (blocks_state_3x3 s ! (r div 3)) = 9"
      by (simp_all add: grid_dims_def)
    from rc have "grid_dims 3 3 (blocks_state_3x3 s ! (r div 3) ! (c div 3))"
      by (intro sub_grid_dims [OF d e]) simp_all
    then have l3: "length (blocks_state_3x3 s ! (r div 3) ! (c div 3)) = 3"
      "length (blocks_state_3x3 s ! (r div 3) ! (c div 3) ! (r mod 3)) = 3"
      by (simp_all add: grid_dims_def)
    from assms(2) rc have old: "board s ! r ! c =
        blocks_state_3x3 s ! (r div 3) ! (c div 3) ! (r mod 3) ! (c mod 3)"
      by (simp add: mirrors_def)
    have lhs: "board s1 ! r ! c = (if r = i \<and> c = j then current_player s else board s ! r ! c)"
      using rc ij lb by (auto simp: s1 nth_list_update)
    have rhs: "blocks_state_3x3 s1 ! (r div 3) ! (c div 3) ! (r mod 3) ! (c mod 3) =
        (if r div 3 = i div 3 \<and> c div 3 = j div 3 \<and> r mod 3 = i mod 3 \<and> c mod 3 = j mod 3
         then current_player s
         else blocks_state_3x3 s ! (r div 3) ! (c div 3) ! (r mod 3) ! (c mod 3))"
      using rc ij ld l3 by (auto simp: s1 nth_list_update)
    show "board s1 ! r ! c = blocks_state_3x3 s1 ! (r div 3) ! (c div 3) ! (r mod 3) ! (c mod 3)"
      unfolding lhs rhs using old by (auto dest: same_cell)
  qed
qed

lemma mirrors_init_game: "mirrors init_game"
  by (simp add: mirrors_def init_game_def)

lemma reachable_invariant: "reachable s \<Longrightarrow> wf_game s \<and> mirrors s"
proof (induction rule: reachable.induct)
  case fresh
  show ?case by (simp add: wf_init_game mirrors_init_game)
next
  case (move s row col b s')
  from move.hyps(2) move.IH have wf: "wf_game s'" by (auto intro: make_move_wf)
  from make_move_grids [OF move.hyps(2)] have "mirrors s'"
  proof
    assume "s' = s" with move.IH show ?thesis by simp
  next
    assume "0 \<le> row \<and> row < 27 \<and> 0 \<le> col \<and> col < 27 \<and>
           (\<exists>s1. place_mark s row col = Some s1 \<and> board s' = board s1 \<and>
                 blocks_state_3x3 s' = blocks_state_3x3 s1)"
    then obtain s1 where r: "0 \<le> row" "row < 27" "0 \<le> col" "col < 27"
      and p: "place_mark s row col = Some s1"
      and eq: "board s' = board s1" "blocks_state_3x3 s' = blocks_state_3x3 s1" by blast
    from move.IH r p have "mirrors s1" by (auto intro: place_mark_mirrors)
    with eq show ?thesis by (simp add: mirrors_def)
  qed
  with wf show ?case by simp
next
  case (reset s)
  show ?case by (simp add: reset_game_def wf_init_game mirrors_init_game)
qed

text \<open>
  Claim C10. In every game reachable from a fresh one by calls of \<open>make_move\<close> and
  \<open>reset_game\<close>, for every \<open>(row, col)\<close> on the board, both \<open>board[row][col]\<close> and
  \<open>blocks_state_3x3[row // 3][col // 3][row % 3][col % 3]\<close> can be read and are equal.
\<close>

theorem board_mirrored_in_sub_grids:
  assumes "reachable s" "0 \<le> row" "row < 27" "0 \<le> col" "col < 27"
  shows "\<exists>x. get2 (board s) row col = Some x \<and>
             get4 (blocks_state_3x3 s) (row div 3) (col div 3) (row mod 3) (col mod 3) = Some x"
proof -
  from reachable_invariant [OF assms(1)] have wf: "wf_game s" and m: "mirrors s" by simp_all
  from wf have d: "grid_dims 9 9 (blocks_state_3x3 s)"
    and e: "\<forall>r \<in> set (blocks_state_3x3 s). \<forall>b \<in> set r. grid_dims 3 3 b"
    by (simp_all add: wf_game_def)
  from assms have n: "nat (row div 3) = nat row div 3" "nat (col div 3) = nat col div 3"
    "nat (row mod 3) = nat row mod 3" "nat (col mod 3) = nat col mod 3"
    by (simp_all add: nat_div_distrib nat_mod_distrib)
  from assms have sub: "grid_dims 3 3 (blocks_state_3x3 s ! nat (row div 3) ! nat (col div 3))"
    by (intro sub_grid_dims [OF d e]) auto
  from assms have 1: "get2 (blocks_state_3x3 s) (row div 3) (col div 3) =
      Some (blocks_state_3x3 s ! nat (row div 3) ! nat (col div 3))"
    by (intro get2_in_range [OF d]) auto
  have 2: "get2 (blocks_state_3x3 s ! nat (row div 3) ! nat (col div 3)) (row mod 3) (col mod 3) =
      Some (blocks_state_3x3 s ! nat (row div 3) ! nat (col div 3) ! nat (row mod 3) ! nat (col mod 3))"
    by (intro get2_in_range [OF sub]) auto
  from assms m have "board s ! nat row ! nat col =
      blocks_state_3x3 s ! nat (row div 3) ! nat (col div 3) ! nat (row mod 3) ! nat (col mod 3)"
    by (simp add: mirrors_def n)
  with cell_reads(1) [OF wf assms(2-5)] 1 2 show ?thesis by (simp add: get4_def)
qed

theorem board_mirrored_in_sub_grids_witness:
  "reachable (moved init_game 13 7) \<and> (0::int) \<le> 13 \<and> (13::int) < 27 \<and> (0::int) \<le> 7 \<and>
   (7::int) < 27 \<and>
   get2 (board (moved init_game 13 7)) 13 7 = Some ''X'' \<and>
   get4 (blocks_state_3x3 (moved init_game 13 7)) 4 2 1 1 = Some ''X''"
proof -
  have "map_option fst (make_move init_game 13 7) = Some True" by code_simp
  then have "make_move init_game 13 7 = Some (True, moved init_game 13 7)"
    by (rule accepted_result)
  with reachable.fresh have r: "reachable (moved init_game 13 7)" by (rule reachable.move)
  have g: "get2 (board (moved init_game 13 7)) 13 7 = Some ''X''" by code_simp
  from board_mirrored_in_sub_grids [OF r, of 13 7] g r show ?thesis by simp
qed

subsection \<open>Saving and loading\<close>

lemma map_m_map:
  assumes "\<And>x. f (g x) = Some x"
  shows "map_m f (map g xs) = Some xs"
  by (induction xs) (simp_all add: assms)

lemma load_row_dump: "load_row (JArray (map JString r)) = Some r"
  by (simp add: map_m_map)

lemma load_grid_dump: "load_grid (dump_grid g) = Some g"
  by (simp add: dump_grid_def map_m_map load_row_dump)

lemma load_grid_row_dump: "load_grid_row (JArray (map dump_grid r)) = Some r"
  by (simp add: map_m_map load_grid_dump)

lemma load_grid4_dump: "load_grid4 (dump_grid4 g) = Some g"
  by (simp add: dump_grid4_def map_m_map load_grid_dump)

lemma load_selector_dump: "load_selector (dump_selector sel) = Some (as_loaded sel)"
  by (cases sel) simp_all

lemma save_then_load:
  "load_game (save_game s px po t) =
     Some (s\<lparr>active_9x9_block := as_loaded (active_9x9_block s),
             active_3x3_block := as_loaded (active_3x3_block s)\<rparr>, px, po)"
  by (simp add: load_game_def save_game_def load_grid_dump load_grid4_dump load_selector_dump)

lemma as_loaded_id: "as_loaded sel = sel \<longleftrightarrow> (\<forall>r c. sel \<noteq> PyTuple r c)"
  by (cases sel) simp_all

lemma save_then_load_fields:
  assumes "load_game (save_game s px po t) = Some (g, x, o')"
  shows "board g = board s \<and> blocks_3x3 g = blocks_3x3 s \<and> blocks_9x9 g = blocks_9x9 s \<and>
         blocks_state_3x3 g = blocks_state_3x3 s \<and> blocks_state_9x9 g = blocks_state_9x9 s \<and>
         current_player g = current_player s \<and> status g = status s \<and>
         active_9x9_block g = as_loaded (active_9x9_block s) \<and>
         active_3x3_block g = as_loaded (active_3x3_block s) \<and> x = px \<and> o' = po"
  using assms by (auto simp: save_then_load)

text \<open>
  Claim C8 fails on the code. A game saved after \<open>make_move(0, 0)\<close> has
  \<open>active_9x9_block == (0, 0)\<close>; the game that \<open>load_game\<close> returns for the save file has
  \<open>active_9x9_block == [0, 0]\<close>, a list, which is not equal to the pair. The difference
  shows: \<open>get_valid_moves\<close> compares the selector with a pair (line 83), so it lists the
  8 empty cells of the active 3x3 block before the save and 80 cells after the load.
  The other seven fields, and a selector that is \<open>None\<close>, come back as they were
  (\<open>save_then_load\<close>).
\<close>

theorem reload_changes_selector:
  "reload_report (moved init_game 0 0) = Some (PyTuple 0 0, PyList 0 0, 8, 80)"
  by code_simp

subsection \<open>Marks and 3x3 winners are written once\<close>

lemma make_move_applied:
  assumes "make_move s row col = Some (b, s')"
  shows "(\<not> b \<and> s' = s) \<or>
         (0 \<le> row \<and> row < 27 \<and> 0 \<le> col \<and> col < 27 \<and>
          board s ! nat row ! nat col = '''' \<and>
          blocks_3x3 s ! nat (row div 3) ! nat (col div 3) = '''' \<and>
          apply_move s row col = Some (b, s'))"
  using assms
  by (auto simp: make_move_def split: if_splits bind_splits dest!: get2_nonneg)

lemma make_move_blocks_3x3:
  assumes "make_move s row col = Some (b, s')"
  shows "blocks_3x3 s' = blocks_3x3 s \<or>
         (0 \<le> row \<and> 0 \<le> col \<and> blocks_3x3 s ! nat (row div 3) ! nat (col div 3) = '''' \<and>
          set2 (blocks_3x3 s) (row div 3) (col div 3) (current_player s) = Some (blocks_3x3 s'))"
proof -
  from make_move_applied [OF assms(1)] show ?thesis
  proof
    assume "\<not> b \<and> s' = s" then show ?thesis by simp
  next
    assume h: "0 \<le> row \<and> row < 27 \<and> 0 \<le> col \<and> col < 27 \<and>
          board s ! nat row ! nat col = '''' \<and>
          blocks_3x3 s ! nat (row div 3) ! nat (col div 3) = '''' \<and>
          apply_move s row col = Some (b, s')"
    then have r: "0 \<le> row" "0 \<le> col" and a: "apply_move s row col = Some (b, s')" by simp_all
    from a show ?thesis
    proof (cases rule: apply_move_cases)
      case (no_win s1)
      from no_win(1) have "blocks_3x3 s1 = blocks_3x3 s"
        by (auto simp: place_mark_def split: bind_splits)
      with no_win_branch_result [OF no_win(3) r] show ?thesis by simp
    next
      case (win s1)
      from win(1) have s1: "blocks_3x3 s1 = blocks_3x3 s" "current_player s1 = current_player s"
        by (auto simp: place_mark_def split: bind_splits)
      from win(3) have "set2 (blocks_3x3 s1) (row div 3) (col div 3) (current_player s1) =
          Some (blocks_3x3 s')"
      proof (cases rule: win_branch_cases)
        case (game b3 bs9 b9)
        then show ?thesis by simp
      next
        case (macro b3 bs9 b9)
        from redirect_after_win_result [OF macro(4) r] macro(1) show ?thesis
          by (simp split: if_splits)
      next
        case (micro b3 bs9)
        from redirect_after_win_result [OF micro(3) r] micro(1) show ?thesis
          by (simp split: if_splits)
      qed
      with s1 h show ?thesis by simp
    qed
  qed
qed

lemma set2_other_entry:
  assumes "set2 g i j v = Some g'" "0 \<le> i" "0 \<le> j" "g ! r ! c \<noteq> g ! nat i ! nat j"
    and "r < length g"
  shows "g' ! r ! c = g ! r ! c"
  using assms
  by (auto simp: set2_def py_get_def py_set_def nth_list_update split: bind_splits if_splits)

lemma board_cell_write_once:
  assumes "make_move s row col = Some (b, s')" "wf_game s"
    and "r < 27" "c < 27" "board s ! r ! c \<noteq> ''''"
  shows "board s' ! r ! c = board s ! r ! c"
proof (cases "s' = s")
  case True
  then show ?thesis by simp
next
  case False
  with make_move_applied [OF assms(1)] have h: "0 \<le> row" "0 \<le> col"
    "board s ! nat row ! nat col = ''''" by simp_all
  from make_move_grids [OF assms(1)] False obtain s1 where
    p: "place_mark s row col = Some s1" and eq: "board s' = board s1" by auto
  from p obtain g where g: "set2 (board s) row col (current_player s) = Some g"
    and "board s1 = g"
    by (auto simp: place_mark_def split: bind_splits)
  with eq have "board s' = g" by simp
  moreover from assms(2,3) have "r < length (board s)" by (simp add: wf_game_def grid_dims_def)
  ultimately show ?thesis using set2_other_entry [OF g, of r c] h assms(5) by auto
qed

lemma winner_3x3_write_once:
  assumes "make_move s row col = Some (b, s')" "wf_game s"
    and "r < 9" "c < 9" "blocks_3x3 s ! r ! c \<noteq> ''''"
  shows "blocks_3x3 s' ! r ! c = blocks_3x3 s ! r ! c"
proof -
  from assms(2,3) have "r < length (blocks_3x3 s)" by (simp add: wf_game_def grid_dims_def)
  with make_move_blocks_3x3 [OF assms(1)] assms(5) show ?thesis
    by (auto dest: set2_other_entry [where r = r and c = c] simp: pos_imp_zdiv_nonneg_iff)
qed

lemma play_wf: "wf_game s \<Longrightarrow> play s ms = Some s' \<Longrightarrow> wf_game s'"
proof (induction ms arbitrary: s)
  case Nil
  then show ?case by simp
next
  case (Cons m ms)
  from Cons.prems(2) obtain b s1 where m: "make_move s (fst m) (snd m) = Some (b, s1)"
    and r: "play s1 ms = Some s'"
    by (auto split: bind_splits)
  from m Cons.prems(1) have "wf_game s1" by (rule make_move_wf)
  then show ?case using r by (rule Cons.IH)
qed

lemma marks_and_3x3_winners_stay:
  assumes "wf_game s" "play s ms = Some s'"
  shows "(\<forall>r < 27. \<forall>c < 27. board s ! r ! c \<noteq> '''' \<longrightarrow> board s' ! r ! c = board s ! r ! c) \<and>
         (\<forall>r < 9. \<forall>c < 9. blocks_3x3 s ! r ! c \<noteq> '''' \<longrightarrow>
            blocks_3x3 s' ! r ! c = blocks_3x3 s ! r ! c)"
  using assms
proof (induction ms arbitrary: s)
  case Nil
  then show ?case by simp
next
  case (Cons m ms)
  from Cons.prems(2) obtain b s1 where m: "make_move s (fst m) (snd m) = Some (b, s1)"
    and r: "play s1 ms = Some s'"
    by (auto split: bind_splits)
  from m Cons.prems(1) have wf1: "wf_game s1" by (rule make_move_wf)
  from Cons.IH [OF wf1 r] board_cell_write_once [OF m Cons.prems(1)]
    winner_3x3_write_once [OF m Cons.prems(1)]
  show ?case by (metis (no_types, lifting))
qed

subsection \<open>Every listed move is accepted\<close>

lemma selectors_ok_init: "selectors_ok init_game"
  by (simp add: selectors_ok_def init_game_def)

lemma no_win_branch_selectors:
  assumes "no_win_branch s row col = Some (b, s')" "0 \<le> row" "row < 27" "0 \<le> col" "col < 27"
  shows "selectors_ok s'"
  using no_win_branch_result [OF assms(1,2,4)] assms(2-5)
  by (auto simp: selectors_ok_def)

lemma redirect_after_win_selectors:
  assumes "redirect_after_win s row col = Some (b, s')" "0 \<le> row" "0 \<le> col"
  shows "selectors_ok s'"
  using redirect_after_win_result [OF assms]
  by (auto simp: selectors_ok_def split: if_splits)

lemma make_move_selectors:
  assumes "make_move s row col = Some (b, s')" "selectors_ok s"
  shows "selectors_ok s'"
proof -
  from make_move_false [OF assms(1)] show ?thesis
  proof
    assume "\<not> b \<and> s' = s" with assms(2) show ?thesis by simp
  next
    assume h: "status s = ''playing'' \<and> 0 \<le> row \<and> row < 27 \<and> 0 \<le> col \<and> col < 27 \<and>
         apply_move s row col = Some (b, s')"
    then have r: "0 \<le> row" "row < 27" "0 \<le> col" "col < 27"
      and a: "apply_move s row col = Some (b, s')" by simp_all
    from a show ?thesis
    proof (cases rule: apply_move_cases)
      case (no_win s1)
      from no_win(3) r show ?thesis by (rule no_win_branch_selectors)
    next
      case (win s1)
      from win(1) have s1: "active_9x9_block s1 = active_9x9_block s"
        "active_3x3_block s1 = active_3x3_block s"
        by (auto simp: place_mark_def split: bind_splits)
      from win(3) show ?thesis
      proof (cases rule: win_branch_cases)
        case (game b3 bs9 b9)
        with assms(2) s1 wins_not_playing [of "current_player s1"] show ?thesis
          by (simp add: selectors_ok_def)
      next
        case (macro b3 bs9 b9)
        from macro(4) r(1,3) show ?thesis by (rule redirect_after_win_selectors)
      next
        case (micro b3 bs9)
        from micro(3) r(1,3) show ?thesis by (rule redirect_after_win_selectors)
      qed
    qed
  qed
qed

lemma reachable_selectors: "reachable s \<Longrightarrow> selectors_ok s"
proof (induction rule: reachable.induct)
  case fresh
  show ?case by (rule selectors_ok_init)
next
  case (move s row col b s')
  from move.hyps(2) move.IH show ?case by (rule make_move_selectors)
next
  case (reset s)
  show ?case by (simp add: reset_game_def selectors_ok_init)
qed

lemma filter_m_mem:
  "filter_m f xs = Some ys \<Longrightarrow> x \<in> set ys \<Longrightarrow> x \<in> set xs \<and> f x = Some True"
  by (induction xs arbitrary: ys) (auto split: bind_splits if_splits)

lemma map_m_mem:
  "map_m f xs = Some ys \<Longrightarrow> y \<in> set ys \<Longrightarrow> \<exists>x \<in> set xs. f x = Some y"
  by (induction xs arbitrary: ys) (auto split: bind_splits)

lemma grid3_mem: "(r, c) \<in> set grid3 \<longleftrightarrow> r \<in> {0, 1, 2} \<and> c \<in> {0, 1, 2}"
  by (auto simp: grid3_def)

lemma empty_cells_mem:
  assumes "empty_cells s sr sc = Some cs" "(row, col) \<in> set cs" "0 \<le> sr" "0 \<le> sc"
  shows "sr \<le> row \<and> row < sr + 3 \<and> sc \<le> col \<and> col < sc + 3 \<and>
         board s ! nat row ! nat col = ''''"
proof -
  from filter_m_mem [OF assms(1) [unfolded empty_cells_def] assms(2)]
  have m: "(row, col) \<in> set [(sr + r, sc + c). r \<leftarrow> [0, 1, 2], c \<leftarrow> [0, 1, 2]]"
    and g: "get2 (board s) row col = Some ''''"
    by (auto split: bind_splits)
  from m have rg: "sr \<le> row \<and> row < sr + 3 \<and> sc \<le> col \<and> col < sc + 3" by auto
  with assms(3,4) get2_nonneg [OF g] show ?thesis by simp
qed

lemma free_blocks_3x3_mem:
  assumes "free_blocks_3x3 s R C = Some bs" "(r, c) \<in> set bs" "0 \<le> R" "0 \<le> C"
  shows "0 \<le> r \<and> r < 3 \<and> 0 \<le> c \<and> c < 3 \<and> blocks_3x3 s ! nat (R * 3 + r) ! nat (C * 3 + c) = ''''"
proof -
  from filter_m_mem [OF assms(1) [unfolded free_blocks_3x3_def] assms(2)]
  have m: "(r, c) \<in> set grid3" and g: "get2 (blocks_3x3 s) (R * 3 + r) (C * 3 + c) = Some ''''"
    by (auto split: bind_splits)
  from m have rg: "0 \<le> r \<and> r < 3 \<and> 0 \<le> c \<and> c < 3" by (auto simp: grid3_mem)
  with assms(3,4) get2_nonneg [OF g] show ?thesis by simp
qed

lemma free_blocks_9x9_mem:
  assumes "free_blocks_9x9 s = Some bs" "(R, C) \<in> set bs"
  shows "0 \<le> R \<and> R < 3 \<and> 0 \<le> C \<and> C < 3"
proof -
  from filter_m_mem [OF assms(1) [unfolded free_blocks_9x9_def] assms(2)]
  have "(R, C) \<in> set grid3" by simp
  then show ?thesis by (auto simp: grid3_mem)
qed

lemma cell_of_block:
  fixes row R r :: int
  assumes "(R * 3 + r) * 3 \<le> row" "row < (R * 3 + r) * 3 + 3" "0 \<le> R" "R < 3" "0 \<le> r" "r < 3"
  shows "row div 9 = R" "row div 3 = R * 3 + r" "(row div 3) mod 3 = r" "0 \<le> row" "row < 27"
proof -
  from assms show 3: "row div 3 = R * 3 + r" by presburger
  from assms show "row div 9 = R" by presburger
  from assms show "(row div 3) mod 3 = r" unfolding 3 by simp
  from assms show "0 \<le> row" "row < 27" by simp_all
qed

lemma moves_in_9x9_mem:
  assumes "moves_in_9x9 s (R, C) = Some cs" "(row, col) \<in> set cs"
    and "0 \<le> R" "R < 3" "0 \<le> C" "C < 3"
    and "selectors_ok s" "status s = ''playing''"
    and "active_9x9_block s = PyNone \<or> active_9x9_block s = PyTuple R C"
  shows "preconditions s row col"
proof -
  from assms(1) obtain bs css where
    bs: "(if active_9x9_block s = PyTuple R C \<and> active_3x3_block s \<noteq> PyNone
          then do { p \<leftarrow> unpack (active_3x3_block s); Some [p] }
          else free_blocks_3x3 s R C) = Some bs"
    and css: "map_m (\<lambda>(b3x3_row, b3x3_col).
               empty_cells s ((R * 3 + b3x3_row) * 3) ((C * 3 + b3x3_col) * 3)) bs = Some css"
    and cs: "cs = concat css"
    by (auto simp: moves_in_9x9_def split: bind_splits)
  from assms(2) cs obtain cells where "cells \<in> set css" "(row, col) \<in> set cells" by auto
  with map_m_mem [OF css] obtain r c where rc: "(r, c) \<in> set bs"
    and ec: "empty_cells s ((R * 3 + r) * 3) ((C * 3 + c) * 3) = Some cells"
    and mem: "(row, col) \<in> set cells"
    by fastforce
  have blk: "0 \<le> r \<and> r < 3 \<and> 0 \<le> c \<and> c < 3 \<and>
      blocks_3x3 s ! nat (R * 3 + r) ! nat (C * 3 + c) = '''' \<and>
      (active_3x3_block s \<noteq> PyNone \<longrightarrow> unpack (active_3x3_block s) = Some (r, c))"
  proof (cases "active_9x9_block s = PyTuple R C \<and> active_3x3_block s \<noteq> PyNone")
    case True
    with assms(7) obtain a b where a3: "active_3x3_block s = PyTuple a b"
      by (cases "active_3x3_block s") (auto simp: selectors_ok_def)
    with True bs rc have "r = a" "c = b" by auto
    with True a3 assms(7,8) show ?thesis by (auto simp: selectors_ok_def)
  next
    case False
    with bs have f: "free_blocks_3x3 s R C = Some bs" by (simp split: if_splits)
    from False assms(7,9) have "active_3x3_block s = PyNone"
      by (auto simp: selectors_ok_def)
    with free_blocks_3x3_mem [OF f rc assms(3,5)] show ?thesis by simp
  qed
  from assms(3-6) blk have nn: "0 \<le> (R * 3 + r) * 3" "0 \<le> (C * 3 + c) * 3" by simp_all
  from empty_cells_mem [OF ec mem nn]
  have e: "(R * 3 + r) * 3 \<le> row" "row < (R * 3 + r) * 3 + 3"
    "(C * 3 + c) * 3 \<le> col" "col < (C * 3 + c) * 3 + 3"
    "board s ! nat row ! nat col = ''''" by simp_all
  from blk have br: "0 \<le> r" "r < 3" "0 \<le> c" "c < 3" by simp_all
  note R = cell_of_block [OF e(1,2) assms(3,4) br(1,2)]
  note C = cell_of_block [OF e(3,4) assms(5,6) br(3,4)]
  from assms(8,9) blk e(5) R C show ?thesis
    by (auto simp: precondition_defs)
qed

lemma listed_move_is_accepted:
  assumes "reachable s" "get_valid_moves s = Some v" "(row, col) \<in> set v"
  shows "preconditions s row col"
proof -
  from assms(1) have ok: "selectors_ok s" by (rule reachable_selectors)
  from assms(2,3) have st: "status s = ''playing''"
    by (auto simp: get_valid_moves_def split: if_splits)
  with assms(2) obtain bs css where
    bs: "(if active_9x9_block s = PyNone then free_blocks_9x9 s
          else do { p \<leftarrow> unpack (active_9x9_block s); Some [p] }) = Some bs"
    and css: "map_m (moves_in_9x9 s) bs = Some css" and v: "v = concat css"
    by (auto simp: get_valid_moves_def split: bind_splits)
  from assms(3) v obtain cells where "cells \<in> set css" "(row, col) \<in> set cells" by auto
  with map_m_mem [OF css] obtain p where p: "p \<in> set bs"
    and m: "moves_in_9x9 s p = Some cells" and mem: "(row, col) \<in> set cells"
    by fastforce
  obtain R C where RC: "p = (R, C)" by (cases p)
  have "0 \<le> R \<and> R < 3 \<and> 0 \<le> C \<and> C < 3 \<and>
        (active_9x9_block s = PyNone \<or> active_9x9_block s = PyTuple R C)"
  proof (cases "active_9x9_block s = PyNone")
    case True
    with bs p RC free_blocks_9x9_mem [of s bs R C] show ?thesis by simp
  next
    case False
    with ok obtain A B where a9: "active_9x9_block s = PyTuple A B"
      by (cases "active_9x9_block s") (auto simp: selectors_ok_def)
    with bs p RC have "R = A" "C = B" by auto
    with a9 ok show ?thesis by (auto simp: selectors_ok_def)
  qed
  with m [unfolded RC] mem ok st show ?thesis
    by (intro moves_in_9x9_mem) auto
qed

text \<open>
  One half of claim C1 holds: in a reachable game, \<open>make_move\<close> returns true on every
  coordinate that \<open>get_valid_moves\<close> lists.
\<close>

lemma listed_move_returns_true:
  assumes "reachable s" "get_valid_moves s = Some v" "(row, col) \<in> set v"
  shows "\<exists>s'. make_move s row col = Some (True, s')"
proof -
  from assms(1) have "wf_game s" by (simp add: reachable_invariant)
  from make_move_total [OF this, of row col] listed_move_is_accepted [OF assms] show ?thesis
    by simp
qed

end
